theory Spec2Isabelle
  imports Complex_Main "HOL-Library.AList" "HOL-Library.Sublist"
begin

section \<open>Health monitor (SystemHealthMonitor, failsafe\_recovery.py)\<close>

text \<open>
  A probe returns a dictionary read with \<^verbatim>\<open>.get('status')\<close>, \<^verbatim>\<open>.get('message', d)\<close> and
  \<^verbatim>\<open>.get('details', {})\<close>: each key may be absent. A probe may also raise; \<open>Raised s\<close>
  carries \<^verbatim>\<open>str(e)\<close>. Probes read an environment of type \<open>'e\<close>.
\<close>

type_synonym details = "(string \<times> string) list"

record check_result =
  cr_status :: "string option"
  cr_message :: "string option"
  cr_details :: "details option"

datatype probe_outcome = Returned check_result | Raised string

text \<open>The value stored under a name by \<^verbatim>\<open>register_health_check\<close>.\<close>

record 'e check_info =
  ci_function :: "'e \<Rightarrow> probe_outcome"
  critical :: bool
  last_result :: "check_result option"
  failure_count :: nat
  last_success :: "nat option"

text \<open>
  An entry of \<^verbatim>\<open>results['critical_failures']\<close> or \<^verbatim>\<open>results['warnings']\<close>. The classifier
  reads such a dictionary with \<^verbatim>\<open>.get('check', '')\<close> and \<^verbatim>\<open>.get('message', '')\<close>, so the keys
  are optional in the type; the monitor always writes all three.
\<close>

record failure =
  f_check :: "string option"
  f_message :: "string option"
  f_failure_count :: "nat option"

text \<open>An entry of \<^verbatim>\<open>results['checks']\<close>: no details on ERROR, no failure count on PASS.\<close>

record check_entry =
  ce_status :: string
  ce_message :: string
  ce_details :: "details option"
  ce_failure_count :: "nat option"

record results =
  timestamp :: nat
  overall_health :: string
  checks :: "(string \<times> check_entry) list"
  critical_failures :: "failure list"
  warnings :: "failure list"

record 'e monitor =
  health_checks :: "(string \<times> 'e check_info) list"
  health_history :: "results list"

text \<open>\<^verbatim>\<open>d.get(k, default)\<close> on an optional key.\<close>

definition get_default :: "'a option \<Rightarrow> 'a \<Rightarrow> 'a" where
  "get_default v d = (case v of None \<Rightarrow> d | Some x \<Rightarrow> x)"

text \<open>
  \<^verbatim>\<open>self.health_checks[name] = {...}\<close>: a Python dictionary keeps insertion order and an
  assignment to an existing key keeps its place, which is \<open>AList.update\<close>.
\<close>

definition register_health_check ::
  "string \<Rightarrow> ('e \<Rightarrow> probe_outcome) \<Rightarrow> bool \<Rightarrow> 'e monitor \<Rightarrow> 'e monitor" where
  "register_health_check name check_function crit m =
     m\<lparr>health_checks :=
         AList.update name
           \<lparr>ci_function = check_function, critical = crit, last_result = None,
            failure_count = 0, last_success = None\<rparr>
           (health_checks m)\<rparr>"

text \<open>
  The accumulator of the loop of \<^verbatim>\<open>run_health_checks\<close>: the results dictionary and the two
  local counters \<^verbatim>\<open>critical_failures\<close> and \<^verbatim>\<open>warnings\<close>.
\<close>

type_synonym pass_acc = "results \<times> nat \<times> nat"

text \<open>
  The part shared by the \<^verbatim>\<open>else\<close> branch and the \<^verbatim>\<open>except\<close> branch: the counter has been
  incremented to \<open>n\<close>; the failure is appended to the critical failures or to the
  warnings and the per-probe entry is written.
\<close>

definition record_failure ::
  "string \<Rightarrow> bool \<Rightarrow> nat \<Rightarrow> string \<Rightarrow> check_entry \<Rightarrow> pass_acc \<Rightarrow> pass_acc" where
  "record_failure name crit n msg entry acc =
     (case acc of (res, cf, wn) \<Rightarrow>
        let fl = \<lparr>f_check = Some name, f_message = Some msg, f_failure_count = Some n\<rparr> in
        if crit
        then (res\<lparr>critical_failures := critical_failures res @ [fl],
                  checks := AList.update name entry (checks res)\<rparr>, cf + 1, wn)
        else (res\<lparr>warnings := warnings res @ [fl],
                  checks := AList.update name entry (checks res)\<rparr>, cf, wn + 1))"

text \<open>
  One iteration of the loop body (lines 85--145), for the probe \<open>name\<close> with its
  \<open>check_info\<close>. \<open>now\<close> is the reading of \<^verbatim>\<open>datetime.now()\<close>.
\<close>

definition check_one ::
  "nat \<Rightarrow> 'e \<Rightarrow> string \<Rightarrow> 'e check_info \<Rightarrow> pass_acc \<Rightarrow> 'e check_info \<times> pass_acc" where
  "check_one now env name ci acc =
     (case ci_function ci env of
        Returned cr \<Rightarrow>
          let ci1 = ci\<lparr>last_result := Some cr\<rparr> in
          if cr_status cr = Some ''PASS''
          then (ci1\<lparr>failure_count := 0, last_success := Some now\<rparr>,
                (case acc of (res, cf, wn) \<Rightarrow>
                   (res\<lparr>checks := AList.update name
                          \<lparr>ce_status = ''PASS'',
                           ce_message = get_default (cr_message cr) ''Check passed'',
                           ce_details = Some (get_default (cr_details cr) []),
                           ce_failure_count = None\<rparr> (checks res)\<rparr>, cf, wn)))
          else
            let n = failure_count ci1 + 1 in
            (ci1\<lparr>failure_count := n\<rparr>,
             record_failure name (critical ci1) n
               (get_default (cr_message cr)
                  (if critical ci1 then ''Critical check failed'' else ''Check failed''))
               \<lparr>ce_status = ''FAIL'',
                ce_message = get_default (cr_message cr) ''Check failed'',
                ce_details = Some (get_default (cr_details cr) []),
                ce_failure_count = Some n\<rparr> acc)
      | Raised e \<Rightarrow>
          let n = failure_count ci + 1;
              error_msg = ''Health check error: '' @ e in
          (ci\<lparr>failure_count := n\<rparr>,
           record_failure name (critical ci) n error_msg
             \<lparr>ce_status = ''ERROR'', ce_message = error_msg,
              ce_details = None, ce_failure_count = Some n\<rparr> acc))"

text \<open>The loop over \<^verbatim>\<open>self.health_checks.items()\<close>, in insertion order.\<close>

fun check_all ::
  "nat \<Rightarrow> 'e \<Rightarrow> (string \<times> 'e check_info) list \<Rightarrow> pass_acc
     \<Rightarrow> (string \<times> 'e check_info) list \<times> pass_acc" where
  "check_all now env [] acc = ([], acc)"
| "check_all now env ((name, ci) # rest) acc =
     (case check_one now env name ci acc of (ci', acc') \<Rightarrow>
        (case check_all now env rest acc' of (rest', acc'') \<Rightarrow>
           ((name, ci') # rest', acc'')))"

text \<open>Lines 147--153.\<close>

definition determine_overall_health :: "pass_acc \<Rightarrow> results" where
  "determine_overall_health acc =
     (case acc of (res, critical_failures_n, warnings_n) \<Rightarrow>
        if critical_failures_n > 0 then res\<lparr>overall_health := ''CRITICAL''\<rparr>
        else if warnings_n > 2 then res\<lparr>overall_health := ''DEGRADED''\<rparr>
        else if warnings_n > 0 then res\<lparr>overall_health := ''WARNING''\<rparr>
        else res)"

text \<open>Lines 155--158: append, then drop the oldest report beyond 100.\<close>

definition store_history :: "results \<Rightarrow> results list \<Rightarrow> results list" where
  "store_history res h = (let h' = h @ [res] in if length h' > 100 then tl h' else h')"

definition run_health_checks :: "nat \<Rightarrow> 'e \<Rightarrow> 'e monitor \<Rightarrow> results \<times> 'e monitor" where
  "run_health_checks now env m =
     (let res0 = \<lparr>timestamp = now, overall_health = ''HEALTHY'', checks = [],
                  critical_failures = [], warnings = []\<rparr> in
      case check_all now env (health_checks m) (res0, 0, 0) of (hc', acc) \<Rightarrow>
        let res = determine_overall_health acc in
        (res, m\<lparr>health_checks := hc', health_history := store_history res (health_history m)\<rparr>))"

text \<open>
  A probe fails in a pass when it raises or returns a status other than \<^verbatim>\<open>'PASS'\<close>
  (the test of line 89).
\<close>

definition probe_failed :: "'e \<Rightarrow> 'e check_info \<Rightarrow> bool" where
  "probe_failed env ci =
     (case ci_function ci env of
        Returned cr \<Rightarrow> cr_status cr \<noteq> Some ''PASS''
      | Raised e \<Rightarrow> True)"

section \<open>Failure classifier (AutoRecoverySystem.\_classify\_failure)\<close>

text \<open>\<^verbatim>\<open>str.lower()\<close> on ASCII text: the letters A--Z move to a--z.\<close>

definition lower_char :: "char \<Rightarrow> char" where
  "lower_char c =
     (case map_of (zip ''ABCDEFGHIJKLMNOPQRSTUVWXYZ'' ''abcdefghijklmnopqrstuvwxyz'') c of
        Some l \<Rightarrow> l
      | None \<Rightarrow> c)"

definition lower :: "string \<Rightarrow> string" where
  "lower s = map lower_char s"

text \<open>\<^verbatim>\<open>sub in s\<close> on strings: \<open>sub\<close> occurs as a contiguous block of \<open>s\<close>.\<close>

fun contains :: "string \<Rightarrow> string \<Rightarrow> bool" where
  "contains sub [] = (sub = [])"
| "contains sub (c # cs) = (prefix sub (c # cs) \<or> contains sub cs)"

definition classify_failure :: "failure \<Rightarrow> string" where
  "classify_failure fl =
     (let check_name = lower (get_default (f_check fl) '''');
          message = lower (get_default (f_message fl) '''') in
      if contains ''disk'' check_name \<or> contains ''disk'' message then ''disk_space_critical''
      else if contains ''memory'' check_name \<or> contains ''memory'' message then ''memory_critical''
      else if contains ''file'' check_name \<or> contains ''missing'' message
              \<or> contains ''corruption'' message then ''file_corruption''
      else ''unknown_failure'')"

section \<open>The file system and the library functions the code calls\<close>

type_synonym path = string

text \<open>A JSON document as \<^verbatim>\<open>json.load\<close> returns it.\<close>

datatype json = JNull | JBool bool | JInt int | JFloat real | JStr string
  | JArr "json list" | JObj "(string \<times> json) list"

record module_state =
  ms_exists :: bool
  ms_size :: "nat option"
  ms_modified :: "nat option"
  ms_hash :: "string option"

text \<open>The dataclass \<^verbatim>\<open>SystemCheckpoint\<close>.\<close>

record system_checkpoint =
  checkpoint_id :: string
  cp_timestamp :: nat
  system_state :: "(string \<times> string) list"
  module_states :: "(string \<times> module_state) list"
  configuration :: json
  file_hashes :: "(path \<times> string) list"
  database_backup :: string
  logs_backup :: string

text \<open>
  What a file holds: plain bytes, a pickled checkpoint, a checkpoint file that was
  opened for writing and whose \<^verbatim>\<open>pickle.dump\<close> did not finish, or a \<^verbatim>\<open>gztar\<close> archive of a
  directory (name, modification time and content of each member).
\<close>

datatype content = Data string | Pickled system_checkpoint | Truncated
  | Archive "(string \<times> nat \<times> content) list"

record fnode =
  mtime :: nat
  content :: content

text \<open>
  The library functions of Python that the code calls and that are not part of the
  repository: \<^verbatim>\<open>json.load\<close> (\<open>None\<close> when it raises), \<^verbatim>\<open>json.dump(obj, f, indent=2)\<close>,
  SHA-256 as a hex digest, \<^verbatim>\<open>stat().st_size\<close> of a file that is not plain bytes, and
  the text of a float in an f-string.
\<close>

record pylib =
  json_load :: "string \<Rightarrow> json option"
  json_dump :: "json \<Rightarrow> string"
  sha256 :: "content \<Rightarrow> string"
  blob_size :: "content \<Rightarrow> nat"
  float_str :: "real \<Rightarrow> string"

text \<open>The input and output operations of the code that can raise.\<close>

datatype io_op = Gather_system_state | Read_config | Hash_file path | Copy_database
  | Archive_logs | Open_checkpoint | Dump_checkpoint | Glob_backups | Unlink string
  | Load_checkpoint | Write_config | Restore_database | Remove_logs | Unpack_logs
  | Stat_logs | Unlink_log string

datatype error = FileNotFoundError string | OSError io_op | JSONDecodeError
  | UnpicklingError | ReadError | KeyError string

text \<open>
  The world the code runs in: the regular files under \<^verbatim>\<open>/workspace\<close> by absolute path,
  the log directory (\<open>None\<close> when it does not exist), the entries of the backup
  directory in the order \<^verbatim>\<open>glob\<close> lists them, the operations that fail, what
  \<^verbatim>\<open>psutil\<close> and \<^verbatim>\<open>sqlite3\<close> report (\<open>Inl\<close> the text of the exception), whether a
  \<^verbatim>\<open>prometheus\<close> instance with a logger is attached, and what was logged.
\<close>

record world =
  files :: "path \<rightharpoonup> fnode"
  logs_dir :: "(string \<times> fnode) list option"
  backup_dir :: "(string \<times> fnode) list"
  io_fails :: "io_op \<Rightarrow> bool"
  system_facts :: "(string \<times> string) list"
  disk_percent :: "string + real"
  memory_percent :: "string + real"
  db_tables :: "string + nat"
  prometheus :: bool
  log :: "(string \<times> string) list"

definition config_path :: path where
  "config_path = ''/workspace/prometheus_config.json''"

definition db_path :: path where
  "db_path = ''/workspace/prometheus_data/prometheus.db''"

definition backup_dir_path :: path where
  "backup_dir_path = ''/workspace/prometheus_backups''"

definition max_backups :: nat where
  "max_backups = 10"

text \<open>\<^verbatim>\<open>if self.prometheus: self.prometheus.logger.system_logger.<level>(msg)\<close>.\<close>

definition log_msg :: "string \<Rightarrow> string \<Rightarrow> world \<Rightarrow> world" where
  "log_msg level msg w = (if prometheus w then w\<lparr>log := log w @ [(level, msg)]\<rparr> else w)"

text \<open>The decimal text of a non-negative integer, as an f-string writes it.\<close>

definition digit_char :: "nat \<Rightarrow> char" where
  "digit_char d = ''0123456789'' ! d"

fun string_of_nat :: "nat \<Rightarrow> string" where
  "string_of_nat n =
     (if n < 10 then [digit_char n]
      else string_of_nat (n div 10) @ [digit_char (n mod 10)])"

declare string_of_nat.simps [simp del]

text \<open>
  A path of the backup directory is resolved to its entry; any other path is looked up
  among the regular files.
\<close>

definition backup_name :: "path \<Rightarrow> string option" where
  "backup_name p =
     (if prefix (backup_dir_path @ ''/'') p
      then Some (drop (length (backup_dir_path @ ''/'')) p) else None)"

definition lookup_path :: "world \<Rightarrow> path \<Rightarrow> fnode option" where
  "lookup_path w p =
     (case backup_name p of Some n \<Rightarrow> map_of (backup_dir w) n | None \<Rightarrow> files w p)"

definition st_size :: "pylib \<Rightarrow> content \<Rightarrow> nat" where
  "st_size L c = (case c of Data s \<Rightarrow> length s | _ \<Rightarrow> blob_size L c)"

text \<open>
  \<^verbatim>\<open>fnmatch\<close> with the wildcards \<^verbatim>\<open>*\<close> and \<^verbatim>\<open>?\<close>; a bracket of a pattern is read as a
  plain character.
\<close>

function glob_match :: "string \<Rightarrow> string \<Rightarrow> bool" where
  "glob_match [] s = (s = [])"
| "glob_match (p # ps) [] = (p = CHR ''*'' \<and> glob_match ps [])"
| "glob_match (p # ps) (c # cs) =
     (if p = CHR ''*'' then glob_match ps (c # cs) \<or> glob_match (p # ps) cs
      else (p = CHR ''?'' \<or> p = c) \<and> glob_match ps cs)"
  by pat_completeness auto
termination
  by (relation "measure (\<lambda>(p, s). length p + length s)") auto

definition glob :: "string \<Rightarrow> (string \<times> fnode) list \<Rightarrow> string list" where
  "glob pat d = filter (glob_match pat) (map fst d)"

text \<open>\<^verbatim>\<open>Path.stem\<close> of a name that matched \<^verbatim>\<open>*.checkpoint\<close>.\<close>

definition stem :: "string \<Rightarrow> string" where
  "stem n = (if n = ''.checkpoint'' then n else take (length n - length ''.checkpoint'') n)"

section \<open>Checkpoint store (BackupManager)\<close>

definition path_exists :: "world \<Rightarrow> path \<Rightarrow> bool" where
  "path_exists w p = (lookup_path w p \<noteq> None)"

definition gather_system_state :: "nat \<Rightarrow> world \<Rightarrow> error + (string \<times> string) list" where
  "gather_system_state now w =
     (if io_fails w Gather_system_state then Inl (OSError Gather_system_state)
      else Inr ((''timestamp'', string_of_nat now) # system_facts w))"

text \<open>\<^verbatim>\<open>_calculate_file_hash\<close>: any exception gives the empty string.\<close>

definition calculate_file_hash :: "pylib \<Rightarrow> world \<Rightarrow> path \<Rightarrow> string" where
  "calculate_file_hash L w p =
     (case lookup_path w p of
        None \<Rightarrow> []
      | Some f \<Rightarrow> if io_fails w (Hash_file p) then [] else sha256 L (content f))"

definition module_files :: "string list" where
  "module_files = [''prometheus_core.py'', ''hephaestus.py'', ''prometheus_web.py'',
     ''prometheus_cli.py'', ''security_advanced.py'']"

definition gather_module_states :: "pylib \<Rightarrow> world \<Rightarrow> (string \<times> module_state) list" where
  "gather_module_states L w =
     map (\<lambda>module_file.
            let module_path = ''/workspace/'' @ module_file in
            case lookup_path w module_path of
              Some f \<Rightarrow>
                (module_file,
                 \<lparr>ms_exists = True, ms_size = Some (st_size L (content f)),
                  ms_modified = Some (mtime f),
                  ms_hash = Some (calculate_file_hash L w module_path)\<rparr>)
            | None \<Rightarrow>
                (module_file,
                 \<lparr>ms_exists = False, ms_size = None, ms_modified = None, ms_hash = None\<rparr>))
         module_files"

definition critical_files :: "path list" where
  "critical_files = [''/workspace/prometheus_core.py'', ''/workspace/hephaestus.py'',
     ''/workspace/prometheus_web.py'', ''/workspace/prometheus_cli.py'',
     ''/workspace/prometheus_config.json'', ''/workspace/requirements.txt'']"

definition calculate_file_hashes :: "pylib \<Rightarrow> world \<Rightarrow> (path \<times> string) list" where
  "calculate_file_hashes L w =
     map (\<lambda>file_path. (file_path, calculate_file_hash L w file_path))
         (filter (path_exists w) critical_files)"

text \<open>
  Lines 244--249: an absent configuration file gives the empty dictionary; a file that
  cannot be opened or parsed raises.
\<close>

definition read_configuration :: "pylib \<Rightarrow> world \<Rightarrow> error + json" where
  "read_configuration L w =
     (case lookup_path w config_path of
        None \<Rightarrow> Inr (JObj [])
      | Some f \<Rightarrow>
          if io_fails w Read_config then Inl (OSError Read_config)
          else (case content f of
                  Data s \<Rightarrow>
                    (case json_load L s of None \<Rightarrow> Inl JSONDecodeError | Some j \<Rightarrow> Inr j)
                | _ \<Rightarrow> Inl JSONDecodeError))"

text \<open>
  \<^verbatim>\<open>_backup_database\<close>: \<^verbatim>\<open>shutil.copy2\<close> keeps the modification time; any exception is
  swallowed and the empty string returned.
\<close>

definition backup_database :: "string \<Rightarrow> world \<Rightarrow> string \<times> world" where
  "backup_database cid w =
     (case lookup_path w db_path of
        None \<Rightarrow> ([], w)
      | Some f \<Rightarrow>
          if io_fails w Copy_database then ([], w)
          else (backup_dir_path @ ''/'' @ cid @ ''_database.db'',
                w\<lparr>backup_dir := AList.update (cid @ ''_database.db'') f (backup_dir w)\<rparr>))"

text \<open>\<^verbatim>\<open>_backup_logs\<close>: any exception is swallowed and the empty string returned.\<close>

definition backup_logs :: "nat \<Rightarrow> string \<Rightarrow> world \<Rightarrow> string \<times> world" where
  "backup_logs now cid w =
     (case logs_dir w of
        None \<Rightarrow> ([], w)
      | Some ls \<Rightarrow>
          if io_fails w Archive_logs then ([], w)
          else (backup_dir_path @ ''/'' @ cid @ ''_logs.tar.gz'',
                w\<lparr>backup_dir := AList.update (cid @ ''_logs.tar.gz'')
                     \<lparr>mtime = now,
                      content = Archive (map (\<lambda>(n, f). (n, mtime f, content f)) ls)\<rparr>
                     (backup_dir w)\<rparr>))"

text \<open>
  Lines 272--274: \<^verbatim>\<open>open(checkpoint_file, 'wb')\<close> creates or empties the file before
  \<^verbatim>\<open>pickle.dump\<close> writes it.
\<close>

definition write_checkpoint :: "nat \<Rightarrow> system_checkpoint \<Rightarrow> world \<Rightarrow> error option \<times> world" where
  "write_checkpoint now cp w =
     (let name = checkpoint_id cp @ ''.checkpoint'' in
      if io_fails w Open_checkpoint then (Some (OSError Open_checkpoint), w)
      else if io_fails w Dump_checkpoint
      then (Some (OSError Dump_checkpoint),
            w\<lparr>backup_dir := AList.update name \<lparr>mtime = now, content = Truncated\<rparr> (backup_dir w)\<rparr>)
      else (None,
            w\<lparr>backup_dir := AList.update name \<lparr>mtime = now, content = Pickled cp\<rparr> (backup_dir w)\<rparr>))"

text \<open>\<^verbatim>\<open>Path.unlink\<close> of an entry of the backup directory.\<close>

definition unlink :: "string \<Rightarrow> world \<Rightarrow> error + world" where
  "unlink n w =
     (if map_of (backup_dir w) n = None then Inl (FileNotFoundError n)
      else if io_fails w (Unlink n) then Inl (OSError (Unlink n))
      else Inr (w\<lparr>backup_dir := AList.delete n (backup_dir w)\<rparr>))"

fun unlink_all :: "string list \<Rightarrow> world \<Rightarrow> error option \<times> world" where
  "unlink_all [] w = (None, w)"
| "unlink_all (n # ns) w =
     (case unlink n w of Inl e \<Rightarrow> (Some e, w) | Inr w1 \<Rightarrow> unlink_all ns w1)"

text \<open>The loop of lines 457--465 over the checkpoint files beyond \<^verbatim>\<open>max_backups\<close>.\<close>

fun remove_old :: "string list \<Rightarrow> world \<Rightarrow> error option \<times> world" where
  "remove_old [] w = (None, w)"
| "remove_old (old_checkpoint # rest) w =
     (case unlink old_checkpoint w of
        Inl e \<Rightarrow> (Some e, w)
      | Inr w1 \<Rightarrow>
          (case unlink_all (glob (stem old_checkpoint @ ''_*'') (backup_dir w1)) w1 of
             (Some e, w2) \<Rightarrow> (Some e, w2)
           | (None, w2) \<Rightarrow> remove_old rest w2))"

text \<open>
  \<^verbatim>\<open>checkpoint_files.sort(key=lambda x: x.stat().st_mtime, reverse=True)\<close>: Python's sort
  is stable, also with \<^verbatim>\<open>reverse=True\<close>, so files of equal time keep the order of the
  listing.
\<close>

definition mtime_of :: "(string \<times> fnode) list \<Rightarrow> string \<Rightarrow> nat" where
  "mtime_of d n = (case map_of d n of Some f \<Rightarrow> mtime f | None \<Rightarrow> 0)"

definition newest_first :: "(string \<times> fnode) list \<Rightarrow> string list \<Rightarrow> string list" where
  "newest_first d names = rev (sort_key (mtime_of d) (rev names))"

definition cleanup_old_backups :: "world \<Rightarrow> world" where
  "cleanup_old_backups w =
     (if io_fails w Glob_backups then log_msg ''error'' ''Error cleaning up old backups'' w
      else
        let checkpoint_files = newest_first (backup_dir w) (glob ''*.checkpoint'' (backup_dir w)) in
        case remove_old (drop max_backups checkpoint_files) w of
          (Some e, w') \<Rightarrow> log_msg ''error'' ''Error cleaning up old backups'' w'
        | (None, w') \<Rightarrow> w')"

text \<open>
  \<^verbatim>\<open>create_system_checkpoint\<close>. \<open>now\<close> is the reading of the clock in seconds: it names
  the checkpoint and stamps the files written. An exception is logged and raised again:
  the result is \<open>Inl\<close>, with the world as the failed attempt left it.
\<close>

definition create_body ::
  "pylib \<Rightarrow> nat \<Rightarrow> world \<Rightarrow> (error + system_checkpoint) \<times> world" where
  "create_body L now w =
     (let cid = ''checkpoint_'' @ string_of_nat now in
      case gather_system_state now w of
        Inl e \<Rightarrow> (Inl e, w)
      | Inr sys \<Rightarrow>
          let mods = gather_module_states L w in
          (case read_configuration L w of
             Inl e \<Rightarrow> (Inl e, w)
           | Inr cfg \<Rightarrow>
               let hashes = calculate_file_hashes L w in
               (case backup_database cid w of (dbb, w1) \<Rightarrow>
                 (case backup_logs now cid w1 of (lgb, w2) \<Rightarrow>
                    let checkpoint =
                          \<lparr>checkpoint_id = cid, cp_timestamp = now, system_state = sys,
                           module_states = mods, configuration = cfg, file_hashes = hashes,
                           database_backup = dbb, logs_backup = lgb\<rparr> in
                    (case write_checkpoint now checkpoint w2 of
                       (Some e, w3) \<Rightarrow> (Inl e, w3)
                     | (None, w3) \<Rightarrow>
                         (Inr checkpoint,
                          log_msg ''info'' (''System checkpoint created: '' @ cid)
                            (cleanup_old_backups w3)))))))"

definition create_system_checkpoint ::
  "pylib \<Rightarrow> nat \<Rightarrow> world \<Rightarrow> (error + system_checkpoint) \<times> world" where
  "create_system_checkpoint L now w =
     (case create_body L now w of
        (Inl e, w') \<Rightarrow> (Inl e, log_msg ''error'' ''Error creating checkpoint'' w')
      | (Inr checkpoint, w') \<Rightarrow> (Inr checkpoint, w'))"

definition verify_file_integrity :: "pylib \<Rightarrow> world \<Rightarrow> (path \<times> string) list \<Rightarrow> string list" where
  "verify_file_integrity L w expected_hashes =
     concat (map (\<lambda>(file_path, expected_hash).
                    if path_exists w file_path
                    then (if calculate_file_hash L w file_path \<noteq> expected_hash
                          then [file_path @ '': hash mismatch''] else [])
                    else [file_path @ '': file missing''])
                 expected_hashes)"

text \<open>Lines 308--311.\<close>

definition restore_database :: "system_checkpoint \<Rightarrow> world \<Rightarrow> error option \<times> world" where
  "restore_database cp w =
     (if database_backup cp = [] then (None, w)
      else (case lookup_path w (database_backup cp) of
              None \<Rightarrow> (None, w)
            | Some f \<Rightarrow>
                if io_fails w Restore_database then (Some (OSError Restore_database), w)
                else (None, w\<lparr>files := (files w)(db_path \<mapsto> f)\<rparr>)))"

text \<open>Lines 313--318.\<close>

definition restore_logs :: "system_checkpoint \<Rightarrow> world \<Rightarrow> error option \<times> world" where
  "restore_logs cp w =
     (if logs_backup cp = [] then (None, w)
      else (case lookup_path w (logs_backup cp) of
              None \<Rightarrow> (None, w)
            | Some f \<Rightarrow>
                if logs_dir w \<noteq> None \<and> io_fails w Remove_logs
                then (Some (OSError Remove_logs), w)
                else
                  let w1 = w\<lparr>logs_dir := None\<rparr> in
                  if io_fails w Unpack_logs then (Some (OSError Unpack_logs), w1)
                  else (case content f of
                          Archive members \<Rightarrow>
                            (None, w1\<lparr>logs_dir :=
                               Some (map (\<lambda>(n, t, c). (n, \<lparr>mtime = t, content = c\<rparr>)) members)\<rparr>)
                        | _ \<Rightarrow> (Some ReadError, w1))))"

definition restore_body ::
  "pylib \<Rightarrow> nat \<Rightarrow> string \<Rightarrow> world \<Rightarrow> error option \<times> world" where
  "restore_body L now cid w =
     (case map_of (backup_dir w) (cid @ ''.checkpoint'') of
        None \<Rightarrow> (Some (FileNotFoundError (''Checkpoint '' @ cid @ '' not found'')), w)
      | Some f \<Rightarrow>
          if io_fails w Load_checkpoint then (Some (OSError Load_checkpoint), w)
          else (case content f of
                  Pickled checkpoint \<Rightarrow>
                    let w1 = log_msg ''info'' (''Starting restore from checkpoint: '' @ cid) w in
                    if io_fails w1 Write_config then (Some (OSError Write_config), w1)
                    else
                      let w2 = w1\<lparr>files := (files w1)(config_path \<mapsto>
                                 \<lparr>mtime = now,
                                  content = Data (json_dump L (configuration checkpoint))\<rparr>)\<rparr> in
                      (case restore_database checkpoint w2 of
                         (Some e, w3) \<Rightarrow> (Some e, w3)
                       | (None, w3) \<Rightarrow>
                           (case restore_logs checkpoint w3 of
                              (Some e, w4) \<Rightarrow> (Some e, w4)
                            | (None, w4) \<Rightarrow>
                                let integrity_issues =
                                      verify_file_integrity L w4 (file_hashes checkpoint);
                                    w5 = (if integrity_issues \<noteq> []
                                          then log_msg ''warning''
                                                 ''File integrity issues detected during restore'' w4
                                          else w4) in
                                (None, log_msg ''info'' (''Restore completed: '' @ cid) w5)))
                | _ \<Rightarrow> (Some UnpicklingError, w)))"

text \<open>
  \<^verbatim>\<open>restore_from_checkpoint\<close>: the body runs inside \<^verbatim>\<open>try\<close>, and \<^verbatim>\<open>except Exception\<close> logs
  and returns \<^verbatim>\<open>False\<close>. The result type has room for an exception reaching the caller
  (\<open>Inl\<close>).
\<close>

definition restore_from_checkpoint ::
  "pylib \<Rightarrow> nat \<Rightarrow> string \<Rightarrow> world \<Rightarrow> (error + bool) \<times> world" where
  "restore_from_checkpoint L now cid w =
     (case restore_body L now cid w of
        (Some e, w') \<Rightarrow> (Inr False, log_msg ''error'' (''Error restoring checkpoint '' @ cid) w')
      | (None, w') \<Rightarrow> (Inr True, w'))"

section \<open>Recovery orchestrator (AutoRecoverySystem)\<close>

text \<open>
  A recovery step is a dictionary read with \<^verbatim>\<open>step['action']\<close> and
  \<^verbatim>\<open>step['description']\<close>: a missing key raises \<^verbatim>\<open>KeyError\<close>.
\<close>

record step =
  action :: "string option"
  description :: "string option"

record recovery_plan =
  plan_id :: string
  failure_type :: string
  recovery_steps :: "step list"
  estimated_time :: nat
  success_probability :: real
  rollback_available :: bool

text \<open>The default probes of \<^verbatim>\<open>_setup_default_health_checks\<close>.\<close>

definition check_disk_space :: "pylib \<Rightarrow> world \<Rightarrow> probe_outcome" where
  "check_disk_space L w =
     (case disk_percent w of
        Inl e \<Rightarrow> Raised e
      | Inr percent \<Rightarrow>
          if percent > 95
          then Returned \<lparr>cr_status = Some ''FAIL'',
                 cr_message = Some (''Disk usage critical: '' @ float_str L percent @ ''%''),
                 cr_details = None\<rparr>
          else if percent > 85
          then Returned \<lparr>cr_status = Some ''WARN'',
                 cr_message = Some (''Disk usage high: '' @ float_str L percent @ ''%''),
                 cr_details = None\<rparr>
          else Returned \<lparr>cr_status = Some ''PASS'',
                 cr_message = Some (''Disk usage normal: '' @ float_str L percent @ ''%''),
                 cr_details = None\<rparr>)"

definition check_memory_usage :: "pylib \<Rightarrow> world \<Rightarrow> probe_outcome" where
  "check_memory_usage L w =
     (case memory_percent w of
        Inl e \<Rightarrow> Raised e
      | Inr percent \<Rightarrow>
          if percent > 95
          then Returned \<lparr>cr_status = Some ''FAIL'',
                 cr_message = Some (''Memory usage critical: '' @ float_str L percent @ ''%''),
                 cr_details = None\<rparr>
          else if percent > 85
          then Returned \<lparr>cr_status = Some ''WARN'',
                 cr_message = Some (''Memory usage high: '' @ float_str L percent @ ''%''),
                 cr_details = None\<rparr>
          else Returned \<lparr>cr_status = Some ''PASS'',
                 cr_message = Some (''Memory usage normal: '' @ float_str L percent @ ''%''),
                 cr_details = None\<rparr>)"

text \<open>The text Python writes for a list of strings that hold no quote.\<close>

fun join :: "string \<Rightarrow> string list \<Rightarrow> string" where
  "join sep [] = []"
| "join sep [x] = x"
| "join sep (x # y # ys) = x @ sep @ join sep (y # ys)"

definition list_repr :: "string list \<Rightarrow> string" where
  "list_repr xs = ''['' @ join '', '' (map (\<lambda>s. [CHR 0x27] @ s @ [CHR 0x27]) xs) @ '']''"

definition check_critical_files :: "world \<Rightarrow> probe_outcome" where
  "check_critical_files w =
     (let missing_files =
            filter (\<lambda>f. \<not> path_exists w f)
              [''/workspace/prometheus_core.py'', ''/workspace/hephaestus.py'',
               ''/workspace/prometheus_config.json''] in
      if missing_files \<noteq> []
      then Returned \<lparr>cr_status = Some ''FAIL'',
             cr_message = Some (''Critical files missing: '' @ list_repr missing_files),
             cr_details = None\<rparr>
      else Returned \<lparr>cr_status = Some ''PASS'',
             cr_message = Some ''All critical files present'', cr_details = None\<rparr>)"

text \<open>
  \<open>db_tables\<close> is what the query of \<^verbatim>\<open>sqlite_master\<close> gives: the number of tables, or
  the text of the exception, which the probe itself catches.
\<close>

definition check_database_connectivity :: "world \<Rightarrow> probe_outcome" where
  "check_database_connectivity w =
     (case db_tables w of
        Inl e \<Rightarrow>
          Returned \<lparr>cr_status = Some ''FAIL'', cr_message = Some (''Database error: '' @ e),
            cr_details = None\<rparr>
      | Inr table_count \<Rightarrow>
          if table_count < 3
          then Returned \<lparr>cr_status = Some ''FAIL'',
                 cr_message = Some (''Database incomplete: '' @ string_of_nat table_count
                                    @ '' tables''),
                 cr_details = None\<rparr>
          else Returned \<lparr>cr_status = Some ''PASS'',
                 cr_message = Some (''Database healthy: '' @ string_of_nat table_count
                                    @ '' tables''),
                 cr_details = None\<rparr>)"

definition setup_default_health_checks :: "pylib \<Rightarrow> world monitor \<Rightarrow> world monitor" where
  "setup_default_health_checks L m =
     register_health_check ''database'' check_database_connectivity True
       (register_health_check ''critical_files'' check_critical_files True
          (register_health_check ''memory_usage'' (check_memory_usage L) True
             (register_health_check ''disk_space'' (check_disk_space L) True m)))"

definition new_monitor :: "'e monitor" where
  "new_monitor = \<lparr>health_checks = [], health_history = []\<rparr>"

definition mk_step :: "string \<Rightarrow> string \<Rightarrow> step" where
  "mk_step a d = \<lparr>action = Some a, description = Some d\<rparr>"

definition setup_recovery_plans :: "(string \<times> recovery_plan) list" where
  "setup_recovery_plans =
     [(''disk_space_critical'',
       \<lparr>plan_id = ''disk_cleanup'', failure_type = ''DISK_SPACE_CRITICAL'',
        recovery_steps =
          [mk_step ''cleanup_logs'' ''Remove old log files'',
           mk_step ''cleanup_backups'' ''Remove old backup files'',
           mk_step ''compress_data'' ''Compress data files'',
           mk_step ''alert_admin'' ''Alert administrator''],
        estimated_time = 300, success_probability = 8 / 10, rollback_available = True\<rparr>),
      (''memory_critical'',
       \<lparr>plan_id = ''memory_cleanup'', failure_type = ''MEMORY_CRITICAL'',
        recovery_steps =
          [mk_step ''garbage_collect'' ''Force garbage collection'',
           mk_step ''restart_modules'' ''Restart non-critical modules'',
           mk_step ''reduce_monitoring'' ''Reduce monitoring frequency'',
           mk_step ''alert_admin'' ''Alert administrator''],
        estimated_time = 120, success_probability = 7 / 10, rollback_available = False\<rparr>),
      (''file_corruption'',
       \<lparr>plan_id = ''file_restore'', failure_type = ''FILE_CORRUPTION'',
        recovery_steps =
          [mk_step ''identify_corrupted'' ''Identify corrupted files'',
           mk_step ''restore_from_backup'' ''Restore from latest backup'',
           mk_step ''verify_integrity'' ''Verify file integrity'',
           mk_step ''restart_system'' ''Restart affected systems''],
        estimated_time = 600, success_probability = 9 / 10, rollback_available = True\<rparr>)]"



text \<open>\<^verbatim>\<open>max(checkpoint_files, key=...)\<close>: the first of the newest files.\<close>

fun latest :: "(string \<times> fnode) list \<Rightarrow> string \<Rightarrow> string list \<Rightarrow> string" where
  "latest d best [] = best"
| "latest d best (n # ns) = latest d (if mtime_of d n > mtime_of d best then n else best) ns"





section \<open>Notions used to state the properties\<close>

text \<open>
  The probes of a registry that fail in a pass over the environment \<open>env\<close>: the
  critical ones, and the others (whose failures are the warnings).
\<close>

definition failed_critical :: "'e \<Rightarrow> (string \<times> 'e check_info) list \<Rightarrow> (string \<times> 'e check_info) list" where
  "failed_critical env hc = filter (\<lambda>(n, ci). critical ci \<and> probe_failed env ci) hc"

definition failed_advisory :: "'e \<Rightarrow> (string \<times> 'e check_info) list \<Rightarrow> (string \<times> 'e check_info) list" where
  "failed_advisory env hc = filter (\<lambda>(n, ci). \<not> critical ci \<and> probe_failed env ci) hc"

text \<open>
  The message of a failed probe in the lists of critical failures and warnings, and the
  entry the pass appends for a failed probe.
\<close>

definition failure_message :: "bool \<Rightarrow> probe_outcome \<Rightarrow> string" where
  "failure_message crit r =
     (case r of
        Returned cr \<Rightarrow>
          get_default (cr_message cr) (if crit then ''Critical check failed'' else ''Check failed'')
      | Raised e \<Rightarrow> ''Health check error: '' @ e)"

definition entry_of :: "'e \<Rightarrow> string \<times> 'e check_info \<Rightarrow> failure" where
  "entry_of env p =
     (case p of (n, ci) \<Rightarrow>
        \<lparr>f_check = Some n,
         f_message = Some (failure_message (critical ci) (ci_function ci env)),
         f_failure_count = Some (failure_count ci + 1)\<rparr>)"

definition failure_counts :: "(string \<times> 'e check_info) list \<Rightarrow> (string \<times> nat) list" where
  "failure_counts hc = map (\<lambda>(n, ci). (n, failure_count ci)) hc"



text \<open>
  Case-insensitive substring matching, in the words of the specification: the token
  occurs as a contiguous block of the lower-cased field (an absent field is the empty
  text).
\<close>

definition mentions :: "string \<Rightarrow> string option \<Rightarrow> bool" where
  "mentions tok field = sublist tok (lower (get_default field []))"

text \<open>
  The classification in the words of the specification: every token is looked for in
  the probe's name and in its message.
\<close>

definition classify_spec :: "failure \<Rightarrow> string" where
  "classify_spec fl =
     (let anywhere = (\<lambda>tok. mentions tok (f_check fl) \<or> mentions tok (f_message fl)) in
      if anywhere ''disk'' then ''disk_space_critical''
      else if anywhere ''memory'' then ''memory_critical''
      else if anywhere ''file'' \<or> anywhere ''missing'' \<or> anywhere ''corruption''
      then ''file_corruption''
      else ''unknown_failure'')"

text \<open>
  The name of the checkpoint created at the time \<open>now\<close>, the record a creation builds
  when the configuration read is \<open>cfg\<close>, and the world once the two artifacts and the
  record are written, before old checkpoints are removed.
\<close>

definition checkpoint_name :: "nat \<Rightarrow> string" where
  "checkpoint_name now = ''checkpoint_'' @ string_of_nat now"

definition built_checkpoint :: "pylib \<Rightarrow> nat \<Rightarrow> world \<Rightarrow> json \<Rightarrow> system_checkpoint" where
  "built_checkpoint L now w cfg =
     \<lparr>checkpoint_id = checkpoint_name now, cp_timestamp = now,
      system_state = (''timestamp'', string_of_nat now) # system_facts w,
      module_states = gather_module_states L w, configuration = cfg,
      file_hashes = calculate_file_hashes L w,
      database_backup = fst (backup_database (checkpoint_name now) w),
      logs_backup =
        fst (backup_logs now (checkpoint_name now)
               (snd (backup_database (checkpoint_name now) w)))\<rparr>"

definition written_world :: "pylib \<Rightarrow> nat \<Rightarrow> world \<Rightarrow> json \<Rightarrow> world" where
  "written_world L now w cfg =
     (let w2 = snd (backup_logs now (checkpoint_name now)
                      (snd (backup_database (checkpoint_name now) w)))
      in w2\<lparr>backup_dir :=
               AList.update (checkpoint_name now @ ''.checkpoint'')
                 \<lparr>mtime = now, content = Pickled (built_checkpoint L now w cfg)\<rparr>
                 (backup_dir w2)\<rparr>)"

text \<open>
  The names a creation at the time \<open>t\<close> writes in the backup directory, in the order it
  writes them: the database copy when there is a database and the copy succeeds, the
  log archive when there is a log directory and the archive succeeds, and the record.
\<close>

definition cp_file :: "nat \<Rightarrow> string" where
  "cp_file t = checkpoint_name t @ ''.checkpoint''"

definition db_file :: "nat \<Rightarrow> string" where
  "db_file t = checkpoint_name t @ ''_database.db''"

definition lg_file :: "nat \<Rightarrow> string" where
  "lg_file t = checkpoint_name t @ ''_logs.tar.gz''"

definition artifact_names :: "world \<Rightarrow> nat \<Rightarrow> string list" where
  "artifact_names w t =
     (if lookup_path w db_path \<noteq> None \<and> \<not> io_fails w Copy_database then [db_file t] else [])
     @ (if logs_dir w \<noteq> None \<and> \<not> io_fails w Archive_logs then [lg_file t] else [])
     @ [cp_file t]"

text \<open>Checkpoints created one after the other, at the times of the list.\<close>

fun create_all :: "pylib \<Rightarrow> nat list \<Rightarrow> world \<Rightarrow> world" where
  "create_all L [] w = w"
| "create_all L (t # ts) w = create_all L ts (snd (create_system_checkpoint L t w))"

text \<open>
  What the sequence of creations keeps true, for the list \<open>ks\<close> of the times whose
  checkpoints are kept: the backup directory lists their artifacts and nothing else,
  each record carries the time of its creation, and the rest of the world is as in
  \<open>w0\<close>.
\<close>

definition store_inv :: "world \<Rightarrow> nat list \<Rightarrow> world \<Rightarrow> bool" where
  "store_inv w0 ks w \<longleftrightarrow>
     map fst (backup_dir w) = concat (map (artifact_names w0) ks)
     \<and> (\<forall>k \<in> set ks. mtime_of (backup_dir w) (cp_file k) = k)
     \<and> files w = files w0 \<and> logs_dir w = logs_dir w0 \<and> io_fails w = io_fails w0"

section \<open>Example inputs\<close>

definition failing_probe :: "'e \<Rightarrow> probe_outcome" where
  "failing_probe env =
     Returned \<lparr>cr_status = Some ''FAIL'', cr_message = Some ''down'', cr_details = None\<rparr>"

definition passing_probe :: "'e \<Rightarrow> probe_outcome" where
  "passing_probe env =
     Returned \<lparr>cr_status = Some ''PASS'', cr_message = Some ''fine'', cr_details = None\<rparr>"


text \<open>Three failing probes that are not critical, and one among passing probes.\<close>

definition three_warnings :: "unit monitor" where
  "three_warnings =
     register_health_check ''c'' failing_probe False
       (register_health_check ''b'' failing_probe False
          (register_health_check ''a'' failing_probe False new_monitor))"

definition one_warning :: "unit monitor" where
  "one_warning =
     register_health_check ''c'' passing_probe True
       (register_health_check ''b'' failing_probe False
          (register_health_check ''a'' passing_probe False new_monitor))"




text \<open>
  The configuration document \<^verbatim>\<open>{"a":1}\<close> in two texts: written compactly, and as
  \<^verbatim>\<open>json.dump(..., indent=2)\<close> writes it (three lines, the member indented by two
  blanks, a blank after the colon).
\<close>

definition compact_config :: string where
  "compact_config =
     [CHR ''{'', CHR 0x22, CHR ''a'', CHR 0x22, CHR '':'', CHR ''1'', CHR ''}'']"

definition indented_config :: string where
  "indented_config =
     [CHR ''{'', CHR 0x0A, CHR '' '', CHR '' '', CHR 0x22, CHR ''a'', CHR 0x22, CHR '':'',
      CHR '' '', CHR ''1'', CHR 0x0A, CHR ''}'']"

text \<open>
  The values of the library functions at the texts and documents of the examples:
  \<^verbatim>\<open>json.load\<close> reads both texts as the same document, \<^verbatim>\<open>json.dump\<close> with
  \<^verbatim>\<open>indent=2\<close> writes the indented one, and the empty dictionary is written \<^verbatim>\<open>{}\<close>.
\<close>

definition example_json_load :: "string \<Rightarrow> json option" where
  "example_json_load s =
     (if s = compact_config \<or> s = indented_config then Some (JObj [(''a'', JInt 1)])
      else if s = ''{}'' then Some (JObj [])
      else None)"

definition example_json_dump :: "json \<Rightarrow> string" where
  "example_json_dump j =
     (if j = JObj [(''a'', JInt 1)] then indented_config
      else if j = JObj [] then ''{}''
      else ''null'')"

definition example_sha256 :: "content \<Rightarrow> string" where
  "example_sha256 c = (case c of Data s \<Rightarrow> ''sha256:'' @ s | _ \<Rightarrow> ''sha256'')"

definition example_float_str :: "real \<Rightarrow> string" where
  "example_float_str r = (if r = 90 then ''90.0'' else if r = 40 then ''40.0'' else ''97.0'')"

definition example_lib :: pylib where
  "example_lib =
     \<lparr>json_load = example_json_load, json_dump = example_json_dump,
      sha256 = example_sha256, blob_size = (\<lambda>c. 0), float_str = example_float_str\<rparr>"

definition no_failure :: "io_op \<Rightarrow> bool" where
  "no_failure op = False"

text \<open>
  A world with a compact configuration file, a database, two of the modules, one log
  file and an empty backup directory, where no operation fails; the disk is 90\% full.
\<close>

definition example_files :: "path \<rightharpoonup> fnode" where
  "example_files =
     [config_path \<mapsto> \<lparr>mtime = 5, content = Data compact_config\<rparr>,
      db_path \<mapsto> \<lparr>mtime = 6, content = Data ''tables''\<rparr>,
      ''/workspace/prometheus_core.py'' \<mapsto> \<lparr>mtime = 1, content = Data ''core''\<rparr>,
      ''/workspace/hephaestus.py'' \<mapsto> \<lparr>mtime = 2, content = Data ''forge''\<rparr>]"

definition example_world :: world where
  "example_world =
     \<lparr>files = example_files,
      logs_dir = Some [(''system.log'', \<lparr>mtime = 7, content = Data ''started''\<rparr>)],
      backup_dir = [],
      io_fails = no_failure,
      system_facts = [(''platform'', ''linux'')],
      disk_percent = Inr 90, memory_percent = Inr 40, db_tables = Inr 5,
      prometheus = True, log = []\<rparr>"

text \<open>
  Failure records: the default database probe when \<^verbatim>\<open>sqlite3\<close> cannot open the file, and
  the two examples of the specification.
\<close>

definition database_open_failure :: failure where
  "database_open_failure =
     \<lparr>f_check = Some ''database'',
      f_message = Some ''Database error: unable to open database file'',
      f_failure_count = Some 1\<rparr>"

definition disk_failure :: failure where
  "disk_failure =
     \<lparr>f_check = Some ''disk_space'', f_message = Some ''Disk usage critical: 97%'',
      f_failure_count = Some 1\<rparr>"

definition files_missing_failure :: failure where
  "files_missing_failure =
     \<lparr>f_check = Some ''critical_files'',
      f_message = Some (''Critical files missing: '' @ list_repr [''/workspace/hephaestus.py'']),
      f_failure_count = Some 1\<rparr>"


text \<open>A world like the example, in which the database cannot be copied.\<close>

definition copy_fails :: "io_op \<Rightarrow> bool" where
  "copy_fails op = (op = Copy_database)"

definition failing_copy_world :: world where
  "failing_copy_world = example_world\<lparr>io_fails := copy_fails\<rparr>"

section \<open>Properties of the health monitor\<close>

lemma check_one_counts:
  assumes "check_one now env name ci (res, cf, wn) = (ci', (res', cf', wn'))"
  shows "cf' = cf + (if critical ci \<and> probe_failed env ci then 1 else 0)"
    and "wn' = wn + (if \<not> critical ci \<and> probe_failed env ci then 1 else 0)"
    and "overall_health res' = overall_health res"
  using assms
  by (auto simp: check_one_def record_failure_def probe_failed_def Let_def
           split: probe_outcome.splits if_splits)

lemma check_one_lists:
  assumes "check_one now env name ci (res, cf, wn) = (ci', (res', cf', wn'))"
  shows "critical_failures res' =
           critical_failures res @ map (entry_of env) (failed_critical env [(name, ci)])"
    and "warnings res' = warnings res @ map (entry_of env) (failed_advisory env [(name, ci)])"
    and "failure_count ci' = (if probe_failed env ci then failure_count ci + 1 else 0)"
  using assms
  by (auto simp: check_one_def record_failure_def probe_failed_def Let_def entry_of_def
        failure_message_def failed_critical_def failed_advisory_def
           split: probe_outcome.splits if_splits)

text \<open>
  The loop invariant of the pass: the two counters count the failed critical and the
  failed other probes seen so far, the two lists hold one entry for each of them, in
  the order of the registry, and every probe's counter is incremented when it failed and
  reset when it passed.
\<close>

lemma check_all_effect:
  assumes "check_all now env hc (res, cf, wn) = (hc', (res', cf', wn'))"
  shows "cf' = cf + length (failed_critical env hc)
       \<and> wn' = wn + length (failed_advisory env hc)
       \<and> overall_health res' = overall_health res
       \<and> critical_failures res' =
           critical_failures res @ map (entry_of env) (failed_critical env hc)
       \<and> warnings res' = warnings res @ map (entry_of env) (failed_advisory env hc)
       \<and> failure_counts hc' =
           map (\<lambda>(n, ci). (n, if probe_failed env ci then failure_count ci + 1 else 0)) hc"
  using assms
proof (induction hc arbitrary: res cf wn hc' res' cf' wn')
  case Nil
  then show ?case by (simp add: failed_critical_def failed_advisory_def failure_counts_def)
next
  case (Cons a hc)
  obtain name ci where a: "a = (name, ci)" by (cases a)
  obtain ci1 res1 cf1 wn1 where
    one: "check_one now env name ci (res, cf, wn) = (ci1, (res1, cf1, wn1))"
    by (metis prod_cases3)
  obtain hc2 res2 cf2 wn2 where
    rest: "check_all now env hc (res1, cf1, wn1) = (hc2, (res2, cf2, wn2))"
    by (metis prod_cases3)
  from Cons.prems a one rest
  have eq: "res' = res2" "cf' = cf2" "wn' = wn2" "hc' = (name, ci1) # hc2" by simp_all
  show ?case
    using check_one_counts[OF one] check_one_lists[OF one] Cons.IH[OF rest] unfolding eq a
    by (simp add: failed_critical_def failed_advisory_def failure_counts_def)
qed

lemma run_health_checks_effect:
  assumes "run_health_checks now env m = (res, m')"
  shows "critical_failures res = map (entry_of env) (failed_critical env (health_checks m))"
    and "warnings res = map (entry_of env) (failed_advisory env (health_checks m))"
    and "failure_counts (health_checks m') =
           map (\<lambda>(n, ci). (n, if probe_failed env ci then failure_count ci + 1 else 0))
               (health_checks m)"
    and "overall_health res =
           (if failed_critical env (health_checks m) \<noteq> [] then ''CRITICAL''
            else if length (failed_advisory env (health_checks m)) > 2 then ''DEGRADED''
            else if length (failed_advisory env (health_checks m)) > 0 then ''WARNING''
            else ''HEALTHY'')"
proof -
  let ?res0 = "\<lparr>timestamp = now, overall_health = ''HEALTHY'', checks = [],
                  critical_failures = [], warnings = []\<rparr>"
  obtain hc' res' cf' wn' where
    all: "check_all now env (health_checks m) (?res0, 0, 0) = (hc', (res', cf', wn'))"
    by (metis prod_cases3)
  note c = check_all_effect[OF all]
  have run: "res = determine_overall_health (res', cf', wn')" "health_checks m' = hc'"
    using all assms by (auto simp add: run_health_checks_def Let_def)
  have d: "critical_failures (determine_overall_health (res', cf', wn')) = critical_failures res'"
     "warnings (determine_overall_health (res', cf', wn')) = warnings res'"
    by (simp_all add: determine_overall_health_def)
  show "critical_failures res = map (entry_of env) (failed_critical env (health_checks m))"
    "warnings res = map (entry_of env) (failed_advisory env (health_checks m))"
    "failure_counts (health_checks m') =
           map (\<lambda>(n, ci). (n, if probe_failed env ci then failure_count ci + 1 else 0))
               (health_checks m)"
    unfolding run d using c by simp_all
  show "overall_health res =
           (if failed_critical env (health_checks m) \<noteq> [] then ''CRITICAL''
            else if length (failed_advisory env (health_checks m)) > 2 then ''DEGRADED''
            else if length (failed_advisory env (health_checks m)) > 0 then ''WARNING''
            else ''HEALTHY'')"
    unfolding run using c by (auto simp: determine_overall_health_def)
qed

text \<open>
  Claim C1. For every monitoring pass, the overall verdict of \<^verbatim>\<open>run_health_checks\<close> is
  CRITICAL if at least one critical probe failed in this pass; otherwise DEGRADED if
  the number of warnings (failures of probes that are not critical) is greater than 2;
  otherwise WARNING if that number is greater than 0; otherwise HEALTHY. The lists of
  critical failures and of warnings of the report have one entry for each such probe.
\<close>

theorem run_health_checks_verdict:
  "overall_health (fst (run_health_checks now env m)) =
     (if failed_critical env (health_checks m) \<noteq> [] then ''CRITICAL''
      else if length (failed_advisory env (health_checks m)) > 2 then ''DEGRADED''
      else if length (failed_advisory env (health_checks m)) > 0 then ''WARNING''
      else ''HEALTHY'')
   \<and> length (critical_failures (fst (run_health_checks now env m)))
       = length (failed_critical env (health_checks m))
   \<and> length (warnings (fst (run_health_checks now env m)))
       = length (failed_advisory env (health_checks m))"
proof -
  obtain res m' where r: "run_health_checks now env m = (res, m')"
    by (cases "run_health_checks now env m")
  show ?thesis
    using run_health_checks_effect[OF r] unfolding r by simp
qed

theorem run_health_checks_verdict_witness:
  "overall_health (fst (run_health_checks 0 () three_warnings)) = ''DEGRADED''
   \<and> overall_health (fst (run_health_checks 0 () one_warning)) = ''WARNING''"
  using run_health_checks_verdict[of 0 "()" three_warnings]
        run_health_checks_verdict[of 0 "()" one_warning]
  by (simp add: three_warnings_def one_warning_def register_health_check_def new_monitor_def
        failed_critical_def failed_advisory_def probe_failed_def failing_probe_def
        passing_probe_def)







lemma default_registry:
  "health_checks (setup_default_health_checks L new_monitor) =
     [(''disk_space'', \<lparr>ci_function = check_disk_space L, critical = True, last_result = None,
            failure_count = 0, last_success = None\<rparr>),
      (''memory_usage'', \<lparr>ci_function = check_memory_usage L, critical = True, last_result = None,
            failure_count = 0, last_success = None\<rparr>),
      (''critical_files'', \<lparr>ci_function = check_critical_files, critical = True, last_result = None,
            failure_count = 0, last_success = None\<rparr>),
      (''database'', \<lparr>ci_function = check_database_connectivity, critical = True, last_result = None,
            failure_count = 0, last_success = None\<rparr>)]"
  by (simp add: setup_default_health_checks_def register_health_check_def new_monitor_def)

text \<open>
  Claim C10. Any result of a registered probe whose status is not exactly \<^verbatim>\<open>PASS\<close>,
  a \<^verbatim>\<open>WARN\<close> included, is a failure: the counter of the probe is incremented and, when
  the probe is critical, the result is recorded among the critical failures and the
  verdict is CRITICAL. The four default probes are critical, so a disk usage above 85
  and at most 95 per cent, for which the disk probe returns \<^verbatim>\<open>WARN\<close>, gives the
  verdict CRITICAL and no warning.
\<close>

theorem non_pass_counts_as_failure:
  "(\<forall>(name, ci) \<in> set (health_checks m). \<forall>cr.
       ci_function ci env = Returned cr \<and> cr_status cr \<noteq> Some ''PASS'' \<longrightarrow>
         (name, failure_count ci + 1)
            \<in> set (failure_counts (health_checks (snd (run_health_checks now env m))))
       \<and> (critical ci \<longrightarrow>
            \<lparr>f_check = Some name,
             f_message = Some (get_default (cr_message cr) ''Critical check failed''),
             f_failure_count = Some (failure_count ci + 1)\<rparr>
              \<in> set (critical_failures (fst (run_health_checks now env m)))
            \<and> overall_health (fst (run_health_checks now env m)) = ''CRITICAL''))
   \<and> (\<forall>p. disk_percent w = Inr p \<and> 85 < p \<and> p \<le> 95 \<longrightarrow>
         check_disk_space L w =
           Returned \<lparr>cr_status = Some ''WARN'',
                     cr_message = Some (''Disk usage high: '' @ float_str L p @ ''%''),
                     cr_details = None\<rparr>
       \<and> overall_health (fst (run_health_checks now w (setup_default_health_checks L new_monitor)))
           = ''CRITICAL''
       \<and> warnings (fst (run_health_checks now w (setup_default_health_checks L new_monitor))) = [])"
proof (intro conjI)
  obtain res m' where r: "run_health_checks now env m = (res, m')"
    by (cases "run_health_checks now env m")
  note e = run_health_checks_effect[OF r]
  have "(name, failure_count ci + 1) \<in> set (failure_counts (health_checks m'))
       \<and> (critical ci \<longrightarrow>
            \<lparr>f_check = Some name,
             f_message = Some (get_default (cr_message cr) ''Critical check failed''),
             f_failure_count = Some (failure_count ci + 1)\<rparr> \<in> set (critical_failures res)
            \<and> overall_health res = ''CRITICAL'')"
    if mem: "(name, ci) \<in> set (health_checks m)"
      and ret: "ci_function ci env = Returned cr" and st: "cr_status cr \<noteq> Some ''PASS''"
    for name ci cr
  proof -
    have pf: "probe_failed env ci" using ret st by (simp add: probe_failed_def)
    have cnt: "(name, failure_count ci + 1) \<in> set (failure_counts (health_checks m'))"
      unfolding e(3) using mem pf by force
    have crit: "\<lparr>f_check = Some name,
             f_message = Some (get_default (cr_message cr) ''Critical check failed''),
             f_failure_count = Some (failure_count ci + 1)\<rparr> \<in> set (critical_failures res)
            \<and> overall_health res = ''CRITICAL''" if c: "critical ci"
    proof -
      have in_fc: "(name, ci) \<in> set (failed_critical env (health_checks m))"
        using mem pf c by (simp add: failed_critical_def)
      have en: "entry_of env (name, ci) = \<lparr>f_check = Some name,
             f_message = Some (get_default (cr_message cr) ''Critical check failed''),
             f_failure_count = Some (failure_count ci + 1)\<rparr>"
        using ret c by (simp add: entry_of_def failure_message_def)
      have "entry_of env (name, ci) \<in> set (critical_failures res)"
        unfolding e(1) using in_fc by simp
      moreover have "failed_critical env (health_checks m) \<noteq> []" using in_fc by auto
      ultimately show ?thesis unfolding en e(4) by simp
    qed
    show ?thesis using cnt crit by blast
  qed
  then show "\<forall>(name, ci) \<in> set (health_checks m). \<forall>cr.
       ci_function ci env = Returned cr \<and> cr_status cr \<noteq> Some ''PASS'' \<longrightarrow>
         (name, failure_count ci + 1)
            \<in> set (failure_counts (health_checks (snd (run_health_checks now env m))))
       \<and> (critical ci \<longrightarrow>
            \<lparr>f_check = Some name,
             f_message = Some (get_default (cr_message cr) ''Critical check failed''),
             f_failure_count = Some (failure_count ci + 1)\<rparr>
              \<in> set (critical_failures (fst (run_health_checks now env m)))
            \<and> overall_health (fst (run_health_checks now env m)) = ''CRITICAL'')"
    unfolding r by auto
next
  let ?m = "setup_default_health_checks L new_monitor"
  obtain res m' where r: "run_health_checks now w ?m = (res, m')"
    by (cases "run_health_checks now w ?m")
  note e = run_health_checks_effect[OF r]
  have adv: "failed_advisory w (health_checks ?m) = []"
    by (simp add: default_registry failed_advisory_def)
  have "check_disk_space L w =
           Returned \<lparr>cr_status = Some ''WARN'',
                     cr_message = Some (''Disk usage high: '' @ float_str L p @ ''%''),
                     cr_details = None\<rparr>
       \<and> overall_health res = ''CRITICAL'' \<and> warnings res = []"
    if d: "disk_percent w = Inr p" "85 < p" "p \<le> 95" for p
  proof -
    have warn: "check_disk_space L w =
           Returned \<lparr>cr_status = Some ''WARN'',
                     cr_message = Some (''Disk usage high: '' @ float_str L p @ ''%''),
                     cr_details = None\<rparr>"
      using d by (simp add: check_disk_space_def)
    have "failed_critical w (health_checks ?m) \<noteq> []"
      using warn by (simp add: default_registry failed_critical_def probe_failed_def)
    then show ?thesis using warn e(2,4) adv by simp
  qed
  then show "\<forall>p. disk_percent w = Inr p \<and> 85 < p \<and> p \<le> 95 \<longrightarrow>
         check_disk_space L w =
           Returned \<lparr>cr_status = Some ''WARN'',
                     cr_message = Some (''Disk usage high: '' @ float_str L p @ ''%''),
                     cr_details = None\<rparr>
       \<and> overall_health (fst (run_health_checks now w ?m)) = ''CRITICAL''
       \<and> warnings (fst (run_health_checks now w ?m)) = []"
    unfolding r by auto
qed

theorem non_pass_counts_as_failure_witness:
  "disk_percent example_world = Inr 90 \<and> (85::real) < 90 \<and> (90::real) \<le> 95
   \<and> overall_health (fst (run_health_checks 0 example_world
         (setup_default_health_checks example_lib new_monitor))) = ''CRITICAL''
   \<and> warnings (fst (run_health_checks 0 example_world
         (setup_default_health_checks example_lib new_monitor))) = []
   \<and> \<lparr>f_check = Some ''disk_space'', f_message = Some ''Disk usage high: 90.0%'',
       f_failure_count = Some 1\<rparr>
        \<in> set (critical_failures (fst (run_health_checks 0 example_world
              (setup_default_health_checks example_lib new_monitor))))"
proof -
  let ?m = "setup_default_health_checks example_lib new_monitor"
  let ?ci = "\<lparr>ci_function = check_disk_space example_lib, critical = True,
              last_result = None, failure_count = 0, last_success = None\<rparr>"
  let ?cr = "\<lparr>cr_status = Some ''WARN'', cr_message = Some ''Disk usage high: 90.0%'',
              cr_details = None\<rparr>"
  note t = non_pass_counts_as_failure[of ?m example_world 0 example_world example_lib]
  have d: "disk_percent example_world = Inr 90 \<and> (85::real) < 90 \<and> (90::real) \<le> 95"
    by (simp add: example_world_def)
  from t have "\<forall>p. disk_percent example_world = Inr p \<and> 85 < p \<and> p \<le> 95 \<longrightarrow>
         check_disk_space example_lib example_world =
           Returned \<lparr>cr_status = Some ''WARN'',
                     cr_message = Some (''Disk usage high: '' @ float_str example_lib p @ ''%''),
                     cr_details = None\<rparr>
       \<and> overall_health (fst (run_health_checks 0 example_world ?m)) = ''CRITICAL''
       \<and> warnings (fst (run_health_checks 0 example_world ?m)) = []"
    by (rule conjunct2)
  with d have second:
    "overall_health (fst (run_health_checks 0 example_world ?m)) = ''CRITICAL''
     \<and> warnings (fst (run_health_checks 0 example_world ?m)) = []"
    by blast
  have mem: "(''disk_space'', ?ci) \<in> set (health_checks ?m)"
    by (simp add: default_registry)
  have ret: "ci_function ?ci example_world = Returned ?cr \<and> cr_status ?cr \<noteq> Some ''PASS''"
    by (simp add: check_disk_space_def example_world_def example_lib_def example_float_str_def)
  from t mem have "\<forall>cr. ci_function ?ci example_world = Returned cr \<and> cr_status cr \<noteq> Some ''PASS'' \<longrightarrow>
         (''disk_space'', failure_count ?ci + 1)
            \<in> set (failure_counts (health_checks (snd (run_health_checks 0 example_world ?m))))
       \<and> (critical ?ci \<longrightarrow>
            \<lparr>f_check = Some ''disk_space'',
             f_message = Some (get_default (cr_message cr) ''Critical check failed''),
             f_failure_count = Some (failure_count ?ci + 1)\<rparr>
              \<in> set (critical_failures (fst (run_health_checks 0 example_world ?m)))
            \<and> overall_health (fst (run_health_checks 0 example_world ?m)) = ''CRITICAL'')"
    by blast
  with ret have "\<lparr>f_check = Some ''disk_space'',
             f_message = Some (get_default (cr_message ?cr) ''Critical check failed''),
             f_failure_count = Some (failure_count ?ci + 1)\<rparr>
              \<in> set (critical_failures (fst (run_health_checks 0 example_world ?m)))"
    by (metis (no_types, lifting) check_info.select_convs(2))
  then have first: "\<lparr>f_check = Some ''disk_space'', f_message = Some ''Disk usage high: 90.0%'',
       f_failure_count = Some 1\<rparr>
        \<in> set (critical_failures (fst (run_health_checks 0 example_world ?m)))"
    by (simp add: get_default_def)
  from d second first show ?thesis by blast
qed

section \<open>Properties of the classifier and of plan execution\<close>

lemma contains_sublist: "contains sub s \<longleftrightarrow> sublist sub s"
  by (induction s) (auto simp: sublist_Cons_right)

text \<open>
  Claim C6, as the code has it. The classification is a function of the probe's name
  and message alone, matched without regard to case, and the first match wins in the
  order disk, memory, file, unknown: the token \<^verbatim>\<open>disk\<close> in the name or the message
  gives the disk category; otherwise \<^verbatim>\<open>memory\<close> in the name or the message gives the
  memory category; otherwise \<^verbatim>\<open>file\<close> in the name, or \<^verbatim>\<open>missing\<close> or
  \<^verbatim>\<open>corruption\<close> in the message, gives the file corruption category; otherwise the
  failure is unknown. The function returns the keys of the plan catalogue
  (\<^verbatim>\<open>disk_space_critical\<close>, ...), whose plans carry the tags in capitals.
\<close>

theorem classify_failure_first_match:
  "classify_failure fl =
     (if mentions ''disk'' (f_check fl) \<or> mentions ''disk'' (f_message fl)
      then ''disk_space_critical''
      else if mentions ''memory'' (f_check fl) \<or> mentions ''memory'' (f_message fl)
      then ''memory_critical''
      else if mentions ''file'' (f_check fl) \<or> mentions ''missing'' (f_message fl)
              \<or> mentions ''corruption'' (f_message fl)
      then ''file_corruption''
      else ''unknown_failure'')"
  by (simp add: classify_failure_def mentions_def contains_sublist Let_def)

lemma mentions_eval: "mentions tok field = contains tok (lower (get_default field []))"
  by (simp add: mentions_def contains_sublist)

theorem classify_failure_first_match_witness:
  "classify_failure disk_failure = ''disk_space_critical''
   \<and> classify_failure files_missing_failure = ''file_corruption''"
  using classify_failure_first_match[of disk_failure]
        classify_failure_first_match[of files_missing_failure]
  by (simp add: mentions_eval disk_failure_def files_missing_failure_def lower_def
        lower_char_def get_default_def list_repr_def)

text \<open>
  Claim C6 as stated fails: the token \<^verbatim>\<open>file\<close> is not looked for in the message. The
  message of the database probe when the database file cannot be opened holds it, and the
  failure is classified as unknown, where matching every token against name and message
  gives file corruption.
\<close>

theorem classify_failure_counterexample:
  "mentions ''file'' (f_message database_open_failure)
   \<and> classify_spec database_open_failure = ''file_corruption''
   \<and> classify_failure database_open_failure = ''unknown_failure''"
  by (simp add: mentions_eval classify_failure_def classify_spec_def database_open_failure_def
        lower_def lower_char_def get_default_def)




section \<open>Properties of the checkpoint store\<close>

lemma log_msg_frame [simp]:
  "files (log_msg l s w) = files w" "backup_dir (log_msg l s w) = backup_dir w"
  "logs_dir (log_msg l s w) = logs_dir w" "io_fails (log_msg l s w) = io_fails w"
  "prometheus (log_msg l s w) = prometheus w"
  by (simp_all add: log_msg_def)





lemma glob_match_literal:
  "CHR ''*'' \<notin> set p \<Longrightarrow> CHR ''?'' \<notin> set p \<Longrightarrow> glob_match p s \<longleftrightarrow> s = p"
  by (induction p s rule: glob_match.induct) auto

lemma glob_match_star_suffix:
  assumes "CHR ''*'' \<notin> set p" "CHR ''?'' \<notin> set p"
  shows "glob_match (CHR ''*'' # p) s \<longleftrightarrow> suffix p s"
proof (induction s)
  case Nil
  show ?case using glob_match_literal[OF assms, of "[]"] by auto
next
  case (Cons c cs)
  show ?case using Cons glob_match_literal[OF assms, of "c # cs"]
    by (auto simp: suffix_Cons)
qed

lemma glob_match_star: "glob_match ''*'' s"
  by (induction s) auto

lemma glob_match_prefix_star:
  "CHR ''*'' \<notin> set p \<Longrightarrow> CHR ''?'' \<notin> set p \<Longrightarrow> glob_match (p @ ''*'') s \<longleftrightarrow> prefix p s"
proof (induction p arbitrary: s)
  case Nil
  then show ?case by (simp add: glob_match_star)
next
  case (Cons a p)
  then show ?case by (cases s) auto
qed

lemma checkpoint_pattern: "glob_match ''*.checkpoint'' n \<longleftrightarrow> suffix ''.checkpoint'' n"
  using glob_match_star_suffix[of "''.checkpoint''" n] by simp



lemma backup_database_frame [simp]:
  "files (snd (backup_database cid w)) = files w"
  "logs_dir (snd (backup_database cid w)) = logs_dir w"
  "io_fails (snd (backup_database cid w)) = io_fails w"
  "prometheus (snd (backup_database cid w)) = prometheus w"
  by (simp_all add: backup_database_def split: option.splits)

lemma backup_logs_frame [simp]:
  "files (snd (backup_logs now cid w)) = files w"
  "logs_dir (snd (backup_logs now cid w)) = logs_dir w"
  "io_fails (snd (backup_logs now cid w)) = io_fails w"
  "prometheus (snd (backup_logs now cid w)) = prometheus w"
  by (simp_all add: backup_logs_def split: option.splits)

lemma backup_database_dir:
  "backup_dir (snd (backup_database cid w)) =
     (if lookup_path w db_path \<noteq> None \<and> \<not> io_fails w Copy_database
      then AList.update (cid @ ''_database.db'') (the (lookup_path w db_path)) (backup_dir w)
      else backup_dir w)"
  "fst (backup_database cid w) =
     (if lookup_path w db_path \<noteq> None \<and> \<not> io_fails w Copy_database
      then backup_dir_path @ ''/'' @ cid @ ''_database.db'' else [])"
  by (auto simp: backup_database_def split: option.splits)

lemma backup_logs_dir:
  "backup_dir (snd (backup_logs now cid w)) =
     (if logs_dir w \<noteq> None \<and> \<not> io_fails w Archive_logs
      then AList.update (cid @ ''_logs.tar.gz'')
             \<lparr>mtime = now,
              content = Archive (map (\<lambda>(n, f). (n, mtime f, content f)) (the (logs_dir w)))\<rparr>
             (backup_dir w)
      else backup_dir w)"
  "fst (backup_logs now cid w) =
     (if logs_dir w \<noteq> None \<and> \<not> io_fails w Archive_logs
      then backup_dir_path @ ''/'' @ cid @ ''_logs.tar.gz'' else [])"
  by (auto simp: backup_logs_def split: option.splits)

lemma create_success_form:
  assumes "\<not> io_fails w Gather_system_state" "read_configuration L w = Inr cfg"
      and "\<not> io_fails w Open_checkpoint" "\<not> io_fails w Dump_checkpoint"
  shows "create_system_checkpoint L now w =
           (Inr (built_checkpoint L now w cfg),
            log_msg ''info'' (''System checkpoint created: '' @ checkpoint_name now)
              (cleanup_old_backups (written_world L now w cfg)))"
  using assms
  by (simp add: create_system_checkpoint_def create_body_def gather_system_state_def
        write_checkpoint_def Let_def case_prod_unfold built_checkpoint_def written_world_def
        checkpoint_name_def)

lemma create_failure_form:
  assumes "io_fails w Gather_system_state \<or> (\<exists>e. read_configuration L w = Inl e)
           \<or> io_fails w Open_checkpoint \<or> io_fails w Dump_checkpoint"
  shows "\<exists>e. fst (create_system_checkpoint L now w) = Inl e"
  using assms
  by (auto simp add: create_system_checkpoint_def create_body_def gather_system_state_def
        write_checkpoint_def Let_def case_prod_unfold split: sum.splits)





lemma written_world_record:
  "map_of (backup_dir (written_world L now w cfg)) (checkpoint_name now @ ''.checkpoint'')
     = Some \<lparr>mtime = now, content = Pickled (built_checkpoint L now w cfg)\<rparr>"
  by (simp add: written_world_def Let_def update_conv')


lemmas eval_defs = create_system_checkpoint_def create_body_def gather_system_state_def
  gather_module_states_def read_configuration_def calculate_file_hashes_def calculate_file_hash_def
  backup_database_def backup_logs_def write_checkpoint_def cleanup_old_backups_def
  newest_first_def glob_def max_backups_def lookup_path_def backup_name_def path_exists_def
  backup_dir_path_def config_path_def db_path_def module_files_def critical_files_def
  example_world_def example_files_def example_lib_def example_json_load_def example_json_dump_def
  example_sha256_def no_failure_def log_msg_def st_size_def compact_config_def indented_config_def
  string_of_nat.simps digit_char_def mtime_of_def Let_def failing_copy_world_def copy_fails_def
  restore_from_checkpoint_def restore_body_def restore_database_def restore_logs_def
  verify_file_integrity_def






lemma unlink_keeps:
  "unlink k w = Inr w' \<Longrightarrow> map_of (backup_dir w') n = Some f \<Longrightarrow> map_of (backup_dir w) n = Some f"
  by (auto simp: unlink_def delete_conv' split: if_splits)

lemma unlink_all_keeps:
  "map_of (backup_dir (snd (unlink_all ks w))) n = Some f \<Longrightarrow> map_of (backup_dir w) n = Some f"
proof (induction ks arbitrary: w)
  case Nil
  then show ?case by simp
next
  case (Cons k ks)
  show ?case
  proof (cases "unlink k w")
    case (Inl e)
    with Cons.prems show ?thesis by simp
  next
    case (Inr w1)
    with Cons.prems have "map_of (backup_dir (snd (unlink_all ks w1))) n = Some f" by simp
    from Cons.IH[OF this] unlink_keeps[OF Inr] show ?thesis by blast
  qed
qed

lemma remove_old_keeps:
  "map_of (backup_dir (snd (remove_old ks w))) n = Some f \<Longrightarrow> map_of (backup_dir w) n = Some f"
proof (induction ks arbitrary: w)
  case Nil
  then show ?case by simp
next
  case (Cons k ks)
  show ?case
  proof (cases "unlink k w")
    case (Inl e)
    with Cons.prems show ?thesis by simp
  next
    case (Inr w1)
    let ?r = "unlink_all (glob (stem k @ ''_*'') (backup_dir w1)) w1"
    have "map_of (backup_dir (snd ?r)) n = Some f"
    proof (cases "fst ?r")
      case None
      with Cons.prems Inr have "map_of (backup_dir (snd (remove_old ks (snd ?r)))) n = Some f"
        by (simp add: case_prod_unfold)
      from Cons.IH[OF this] show ?thesis .
    next
      case (Some e)
      with Cons.prems Inr show ?thesis by (simp add: case_prod_unfold)
    qed
    from unlink_all_keeps[OF this] unlink_keeps[OF Inr] show ?thesis by blast
  qed
qed

lemma cleanup_keeps:
  "map_of (backup_dir (cleanup_old_backups w)) n = Some f \<Longrightarrow> map_of (backup_dir w) n = Some f"
  using remove_old_keeps[of "drop max_backups (newest_first (backup_dir w) (glob ''*.checkpoint'' (backup_dir w)))" w n f]
  by (auto simp: cleanup_old_backups_def Let_def case_prod_unfold split: if_splits option.splits)

lemma restore_database_files:
  "files (snd (restore_database cp w)) config_path = files w config_path"
  by (simp add: restore_database_def config_path_def db_path_def split: option.splits)

lemma restore_logs_files: "files (snd (restore_logs cp w)) = files w"
  by (simp add: restore_logs_def Let_def split: option.splits content.splits)

lemma restore_true_form:
  assumes "restore_from_checkpoint L now cid w = (Inr True, w2)"
  shows "\<exists>f cp. map_of (backup_dir w) (cid @ ''.checkpoint'') = Some f \<and> content f = Pickled cp
          \<and> files w2 config_path
              = Some \<lparr>mtime = now, content = Data (json_dump L (configuration cp))\<rparr>"
proof -
  from assms have body: "restore_body L now cid w = (None, w2)"
    by (auto simp: restore_from_checkpoint_def split: prod.splits option.splits)
  then obtain f where f: "map_of (backup_dir w) (cid @ ''.checkpoint'') = Some f"
    by (cases "map_of (backup_dir w) (cid @ ''.checkpoint'')") (auto simp: restore_body_def)
  from body f obtain cp where cp: "content f = Pickled cp"
    by (cases "content f") (auto simp: restore_body_def split: if_splits)
  let ?w1 = "log_msg ''info'' (''Starting restore from checkpoint: '' @ cid) w"
  let ?w2 = "?w1\<lparr>files := (files ?w1)(config_path \<mapsto>
               \<lparr>mtime = now, content = Data (json_dump L (configuration cp))\<rparr>)\<rparr>"
  let ?w3 = "snd (restore_database cp ?w2)"
  let ?w4 = "snd (restore_logs cp ?w3)"
  from body f cp have "files w2 = files ?w4"
    by (auto simp: restore_body_def Let_def case_prod_unfold split: if_splits option.splits)
  then have "files w2 config_path = files ?w2 config_path"
    by (simp add: restore_logs_files restore_database_files)
  then show ?thesis using f cp by simp
qed

text \<open>
  Claim C7, as the code has it. When a creation returns the checkpoint \<open>cp\<close> and a
  later restore of its id, from a backup directory left as the creation left it, returns
  \<^verbatim>\<open>True\<close>, the live configuration file holds the text \<^verbatim>\<open>json.dump\<close> writes, with
  \<^verbatim>\<open>indent=2\<close>, for the document that \<^verbatim>\<open>json.load\<close> read at creation time. Where the
  library reads back what it wrote, the file therefore parses to the document of creation
  time; its bytes are those of \<^verbatim>\<open>json.dump\<close>, not those of the file at creation time.
\<close>

theorem create_restore_configuration:
  assumes "create_system_checkpoint L t w = (Inr cp, w1)"
      and "backup_dir w1' = backup_dir w1"
      and "restore_from_checkpoint L t' (checkpoint_id cp) w1' = (Inr True, w2)"
  shows "read_configuration L w = Inr (configuration cp)
       \<and> files w2 config_path
           = Some \<lparr>mtime = t', content = Data (json_dump L (configuration cp))\<rparr>
       \<and> (json_load L (json_dump L (configuration cp)) = Some (configuration cp)
            \<and> \<not> io_fails w2 Read_config
          \<longrightarrow> read_configuration L w2 = read_configuration L w)"
proof -
  have nofail: "\<not> (io_fails w Gather_system_state \<or> (\<exists>e. read_configuration L w = Inl e)
           \<or> io_fails w Open_checkpoint \<or> io_fails w Dump_checkpoint)"
  proof
    assume "io_fails w Gather_system_state \<or> (\<exists>e. read_configuration L w = Inl e)
           \<or> io_fails w Open_checkpoint \<or> io_fails w Dump_checkpoint"
    from create_failure_form[OF this, of t] assms(1) show False by simp
  qed
  then obtain cfg where cfg: "read_configuration L w = Inr cfg"
    by (cases "read_configuration L w") auto
  from nofail have ok: "\<not> io_fails w Gather_system_state" "\<not> io_fails w Open_checkpoint"
    "\<not> io_fails w Dump_checkpoint" by auto
  note form = create_success_form[OF ok(1) cfg ok(2,3), of t]
  from form assms(1) have cp: "cp = built_checkpoint L t w cfg"
    and w1: "w1 = log_msg ''info'' (''System checkpoint created: '' @ checkpoint_name t)
              (cleanup_old_backups (written_world L t w cfg))"
    by simp_all
  have cid: "checkpoint_id cp = checkpoint_name t" and conf: "configuration cp = cfg"
    by (simp_all add: cp built_checkpoint_def)
  from restore_true_form[OF assms(3)] obtain f cp' where
    f: "map_of (backup_dir w1') (checkpoint_id cp @ ''.checkpoint'') = Some f"
    and cp': "content f = Pickled cp'"
    and written: "files w2 config_path
              = Some \<lparr>mtime = t', content = Data (json_dump L (configuration cp'))\<rparr>"
    by blast
  from f have "map_of (backup_dir (cleanup_old_backups (written_world L t w cfg)))
                 (checkpoint_name t @ ''.checkpoint'') = Some f"
    by (simp add: assms(2) w1 cid)
  from cleanup_keeps[OF this] have "f = \<lparr>mtime = t, content = Pickled cp\<rparr>"
    by (simp add: written_world_record cp)
  with cp' have same: "cp' = cp" by simp
  have after: "read_configuration L w2 = Inr cfg"
    if "json_load L (json_dump L cfg) = Some cfg" "\<not> io_fails w2 Read_config"
    using that written same conf
    by (simp add: read_configuration_def lookup_path_def backup_name_def config_path_def
          backup_dir_path_def)
  show ?thesis using cfg conf written same after by simp
qed

text \<open>
  Claim C7 as stated fails: a configuration file holding the compact text
  \<^verbatim>\<open>{"a":1}\<close> at creation time holds, after the restore of the checkpoint, the indented
  text of the same document, which differs in its bytes.
\<close>

theorem create_restore_counterexample:
  "map_sum id checkpoint_id (fst (create_system_checkpoint example_lib 100 example_world))
     = Inr ''checkpoint_100''
   \<and> fst (restore_from_checkpoint example_lib 200 ''checkpoint_100''
            (snd (create_system_checkpoint example_lib 100 example_world))) = Inr True
   \<and> map_option content (files example_world config_path) = Some (Data compact_config)
   \<and> map_option content
        (files (snd (restore_from_checkpoint example_lib 200 ''checkpoint_100''
                       (snd (create_system_checkpoint example_lib 100 example_world))))
           config_path)
       = Some (Data indented_config)
   \<and> compact_config \<noteq> indented_config"
  by (simp add: eval_defs)

theorem create_restore_configuration_witness:
  "\<exists>cp w1 w2. create_system_checkpoint example_lib 100 example_world = (Inr cp, w1)
     \<and> restore_from_checkpoint example_lib 200 (checkpoint_id cp) w1 = (Inr True, w2)
     \<and> json_load example_lib (json_dump example_lib (configuration cp)) = Some (configuration cp)
     \<and> \<not> io_fails w2 Read_config
     \<and> files w2 config_path
           = Some \<lparr>mtime = 200, content = Data (json_dump example_lib (configuration cp))\<rparr>
     \<and> read_configuration example_lib w2 = read_configuration example_lib example_world"
proof -
  let ?c = "create_system_checkpoint example_lib 100 example_world"
  let ?r = "restore_from_checkpoint example_lib 200 ''checkpoint_100'' (snd ?c)"
  have "map_sum id (\<lambda>cp. (checkpoint_id cp, configuration cp)) (fst ?c)
          = Inr (''checkpoint_100'', JObj [(''a'', JInt 1)])"
    by (simp add: eval_defs)
  then obtain cp where cp: "fst ?c = Inr cp" "checkpoint_id cp = ''checkpoint_100''"
      "configuration cp = JObj [(''a'', JInt 1)]"
    by (cases "fst ?c") auto
  have created: "?c = (Inr cp, snd ?c)" using cp(1) by (cases ?c) simp
  have "fst ?r = Inr True \<and> \<not> io_fails (snd ?r) Read_config"
    by (simp add: eval_defs)
  then have restored: "restore_from_checkpoint example_lib 200 (checkpoint_id cp) (snd ?c)
                         = (Inr True, snd ?r)"
      and readable: "\<not> io_fails (snd ?r) Read_config"
    unfolding cp(2) by (cases ?r, simp)+
  have rt: "json_load example_lib (json_dump example_lib (configuration cp))
              = Some (configuration cp)"
    by (simp add: cp(3) example_lib_def example_json_load_def example_json_dump_def)
  note t = create_restore_configuration[OF created refl restored]
  from t rt readable created restored show ?thesis by blast
qed

section \<open>Retention\<close>

lemma digit_char_cases:
  fixes d :: nat
  assumes "d < 10"
  shows "d = 0 \<or> d = 1 \<or> d = 2 \<or> d = 3 \<or> d = 4 \<or> d = 5 \<or> d = 6 \<or> d = 7 \<or> d = 8 \<or> d = 9"
  using assms by arith

lemma digit_char_digit:
  assumes "d < 10" shows "digit_char d \<in> set ''0123456789''"
  using digit_char_cases[OF assms] by (elim disjE) (simp_all add: digit_char_def)

lemma digit_char_inj:
  assumes "a < 10" "b < 10" "digit_char a = digit_char b"
  shows "a = b"
  using digit_char_cases[OF assms(1)] digit_char_cases[OF assms(2)] assms(3)
  by (elim disjE) (simp_all add: digit_char_def)

lemma string_of_nat_digits: "set (string_of_nat n) \<subseteq> set ''0123456789''"
proof (induction n rule: string_of_nat.induct)
  case (1 n)
  show ?case
  proof (cases "n < 10")
    case True
    then show ?thesis using digit_char_digit[of n] by (subst string_of_nat.simps) simp
  next
    case False
    have "n mod 10 < 10" by simp
    from digit_char_digit[OF this] 1[OF False] False
    show ?thesis by (subst string_of_nat.simps) simp
  qed
qed

lemma string_of_nat_nonempty: "string_of_nat n \<noteq> []"
  by (subst string_of_nat.simps) simp

lemma string_of_nat_inj: "string_of_nat a = string_of_nat b \<Longrightarrow> a = b"
proof (induction a arbitrary: b rule: string_of_nat.induct)
  case (1 a)
  show ?case
  proof (cases "a < 10")
    case a: True
    show ?thesis
    proof (cases "b < 10")
      case True
      with a "1.prems" show ?thesis
        by (simp add: string_of_nat.simps[of a] string_of_nat.simps[of b] digit_char_inj)
    next
      case False
      with a "1.prems" string_of_nat_nonempty[of "b div 10"] show ?thesis
        by (simp add: string_of_nat.simps[of a] string_of_nat.simps[of b])
    qed
  next
    case a: False
    show ?thesis
    proof (cases "b < 10")
      case True
      with a "1.prems" string_of_nat_nonempty[of "a div 10"] show ?thesis
        by (simp add: string_of_nat.simps[of a] string_of_nat.simps[of b])
    next
      case False
      with a "1.prems" have eq: "string_of_nat (a div 10) = string_of_nat (b div 10)"
        and d: "digit_char (a mod 10) = digit_char (b mod 10)"
        by (simp_all add: string_of_nat.simps[of a] string_of_nat.simps[of b])
      from "1.IH"[OF a eq] have "a div 10 = b div 10" .
      moreover from d have "a mod 10 = b mod 10" by (intro digit_char_inj) simp_all
      ultimately show ?thesis by (metis div_mult_mod_eq)
    qed
  qed
qed

lemma checkpoint_name_plain:
  "CHR ''*'' \<notin> set (checkpoint_name t)" "CHR ''?'' \<notin> set (checkpoint_name t)"
  "CHR ''_'' \<notin> set (string_of_nat t)" "CHR ''.'' \<notin> set (string_of_nat t)"
  using string_of_nat_digits[of t] by (auto simp: checkpoint_name_def)

lemma checkpoint_name_inj: "checkpoint_name a = checkpoint_name b \<longleftrightarrow> a = b"
  by (auto simp: checkpoint_name_def dest: string_of_nat_inj)

lemma prefix_underscore:
  assumes "CHR ''_'' \<notin> set ys" "c \<notin> set xs"
  shows "prefix (xs @ [CHR ''_'']) (ys @ c # rest) \<longleftrightarrow> xs = ys \<and> c = CHR ''_''"
  using assms
proof (induction xs arbitrary: ys)
  case Nil
  then show ?case by (cases ys) auto
next
  case (Cons x xs)
  then show ?case by (cases ys) auto
qed

lemma sibling_prefix:
  assumes "c \<notin> set (string_of_nat k)"
  shows "prefix (checkpoint_name k @ ''_'') (checkpoint_name t @ c # rest) \<longleftrightarrow> k = t \<and> c = CHR ''_''"
proof -
  have "prefix (checkpoint_name k @ ''_'') (checkpoint_name t @ c # rest)
        \<longleftrightarrow> prefix (string_of_nat k @ [CHR ''_'']) (string_of_nat t @ c # rest)"
    by (simp add: checkpoint_name_def)
  also have "\<dots> \<longleftrightarrow> string_of_nat k = string_of_nat t \<and> c = CHR ''_''"
    using prefix_underscore[OF checkpoint_name_plain(3) assms] .
  finally show ?thesis by (auto dest: string_of_nat_inj)
qed

lemma sibling_pattern:
  "glob_match (checkpoint_name k @ ''_*'') (db_file t) \<longleftrightarrow> k = t"
  "glob_match (checkpoint_name k @ ''_*'') (lg_file t) \<longleftrightarrow> k = t"
  "\<not> glob_match (checkpoint_name k @ ''_*'') (cp_file t)"
proof -
  have plain: "CHR ''*'' \<notin> set (checkpoint_name k @ ''_'')" "CHR ''?'' \<notin> set (checkpoint_name k @ ''_'')"
    using checkpoint_name_plain(1,2)[of k] by simp_all
  have pat: "glob_match (checkpoint_name k @ ''_*'') n \<longleftrightarrow> prefix (checkpoint_name k @ ''_'') n" for n
    using glob_match_prefix_star[OF plain, of n] by simp
  show "glob_match (checkpoint_name k @ ''_*'') (db_file t) \<longleftrightarrow> k = t"
    using sibling_prefix[OF checkpoint_name_plain(3), of k t "''database.db''"]
    by (simp add: pat db_file_def)
  show "glob_match (checkpoint_name k @ ''_*'') (lg_file t) \<longleftrightarrow> k = t"
    using sibling_prefix[OF checkpoint_name_plain(3), of k t "''logs.tar.gz''"]
    by (simp add: pat lg_file_def)
  show "\<not> glob_match (checkpoint_name k @ ''_*'') (cp_file t)"
    using sibling_prefix[OF checkpoint_name_plain(4), of k t "''checkpoint''"]
    by (simp add: pat cp_file_def)
qed

lemma checkpoint_file_pattern:
  "glob_match ''*.checkpoint'' (cp_file t)"
  "\<not> glob_match ''*.checkpoint'' (db_file t)"
  "\<not> glob_match ''*.checkpoint'' (lg_file t)"
  by (simp_all add: checkpoint_pattern cp_file_def db_file_def lg_file_def suffix_to_prefix)

lemma stem_cp_file: "stem (cp_file t) = checkpoint_name t"
  by (simp add: stem_def cp_file_def checkpoint_name_def)

lemma names_distinct:
  "cp_file a = cp_file b \<longleftrightarrow> a = b" "db_file a = db_file b \<longleftrightarrow> a = b"
  "lg_file a = lg_file b \<longleftrightarrow> a = b"
  "cp_file a \<noteq> db_file b" "cp_file a \<noteq> lg_file b" "db_file a \<noteq> lg_file b"
  "db_file a \<noteq> cp_file b" "lg_file a \<noteq> cp_file b" "lg_file a \<noteq> db_file b"
proof -
  show "cp_file a = cp_file b \<longleftrightarrow> a = b" "db_file a = db_file b \<longleftrightarrow> a = b"
    "lg_file a = lg_file b \<longleftrightarrow> a = b"
    by (simp_all add: cp_file_def db_file_def lg_file_def checkpoint_name_inj)
  have l: "last (cp_file n) = CHR ''t''" "last (db_file n) = CHR ''b''"
    "last (lg_file n) = CHR ''z''" for n
    by (simp_all add: cp_file_def db_file_def lg_file_def)
  show "cp_file a \<noteq> db_file b" "cp_file a \<noteq> lg_file b" "db_file a \<noteq> lg_file b"
    "db_file a \<noteq> cp_file b" "lg_file a \<noteq> cp_file b" "lg_file a \<noteq> db_file b"
  proof -
    have ne: "last x \<noteq> last y \<Longrightarrow> x \<noteq> y" for x y :: string by auto
    show "cp_file a \<noteq> db_file b" by (rule ne) (simp add: l)
    show "cp_file a \<noteq> lg_file b" by (rule ne) (simp add: l)
    show "db_file a \<noteq> lg_file b" by (rule ne) (simp add: l)
    show "db_file a \<noteq> cp_file b" by (rule ne) (simp add: l)
    show "lg_file a \<noteq> cp_file b" by (rule ne) (simp add: l)
    show "lg_file a \<noteq> db_file b" by (rule ne) (simp add: l)
  qed
qed

lemma insort_key_largest:
  "\<forall>y \<in> set ys. f y < f x \<Longrightarrow> insort_key f x ys = ys @ [x]"
  by (induction ys) auto

lemma sort_key_decreasing:
  "sorted_wrt (\<lambda>a b. f a > f b) xs \<Longrightarrow> sort_key f xs = rev xs"
proof (induction xs)
  case Nil
  then show ?case by simp
next
  case (Cons x xs)
  then have "sort_key f xs = rev xs" by simp
  moreover have "\<forall>y \<in> set (rev xs). f y < f x" using Cons.prems by auto
  ultimately show ?case by (simp add: insort_key_largest)
qed

lemma newest_first_increasing:
  assumes "sorted_wrt (<) ks" "\<forall>k \<in> set ks. mtime_of d (g k) = k"
  shows "newest_first d (map g ks) = map g (rev ks)"
proof -
  have "sorted_wrt (\<lambda>a b. mtime_of d a > mtime_of d b) (rev (map g ks))"
    unfolding sorted_wrt_rev sorted_wrt_map
    by (rule sorted_wrt_mono_rel[OF _ assms(1)]) (simp add: assms(2))
  from sort_key_decreasing[OF this] show ?thesis
    by (simp add: newest_first_def rev_map)
qed

lemma drop_keep_last:
  fixes xs ys :: "'a list"
  shows "drop (length (drop (length xs - n) xs @ ys) - n) (drop (length xs - n) xs @ ys)
           = drop (length (xs @ ys) - n) (xs @ ys)"
  by (cases "length xs \<le> n") (auto simp: drop_append add.commute)

text \<open>Removing names that are all present, where no removal fails.\<close>

lemma unlink_all_present:
  assumes "set ns \<subseteq> fst ` set (backup_dir w)" "distinct ns" "\<forall>n. \<not> io_fails w (Unlink n)"
  shows "unlink_all ns w =
           (None, w\<lparr>backup_dir := filter (\<lambda>p. fst p \<notin> set ns) (backup_dir w)\<rparr>)"
  using assms
proof (induction ns arbitrary: w)
  case Nil
  then show ?case by simp
next
  case (Cons n ns)
  let ?w1 = "w\<lparr>backup_dir := AList.delete n (backup_dir w)\<rparr>"
  have present: "map_of (backup_dir w) n \<noteq> None"
    using Cons.prems(1) by (simp add: map_of_eq_None_iff)
  then have u: "unlink n w = Inr ?w1"
    using Cons.prems(3) by (simp add: unlink_def)
  have sub: "set ns \<subseteq> fst ` set (backup_dir ?w1)"
  proof
    fix x assume x: "x \<in> set ns"
    then have "x \<noteq> n" using Cons.prems(2) by auto
    moreover from x Cons.prems(1) obtain b where "(x, b) \<in> set (backup_dir w)" by force
    ultimately have "(x, b) \<in> set (AList.delete n (backup_dir w))"
      by (simp add: AList.delete_eq)
    then show "x \<in> fst ` set (backup_dir ?w1)" by force
  qed
  have "unlink_all ns ?w1 =
          (None, ?w1\<lparr>backup_dir := filter (\<lambda>p. fst p \<notin> set ns) (backup_dir ?w1)\<rparr>)"
    using Cons.IH[OF sub] Cons.prems(2,3) by simp
  moreover have "filter (\<lambda>p. fst p \<notin> set ns) (AList.delete n (backup_dir w))
                   = filter (\<lambda>p. fst p \<notin> set (n # ns)) (backup_dir w)"
    by (auto simp: AList.delete_eq intro: filter_cong)
  ultimately show ?case using u by simp
qed

lemma lookup_live_paths:
  "lookup_path w db_path = files w db_path" "lookup_path w config_path = files w config_path"
  by (simp_all add: lookup_path_def backup_name_def db_path_def config_path_def backup_dir_path_def)

lemma artifact_names_cong:
  "files w = files w0 \<Longrightarrow> logs_dir w = logs_dir w0 \<Longrightarrow> io_fails w = io_fails w0
     \<Longrightarrow> artifact_names w t = artifact_names w0 t"
  by (simp add: artifact_names_def lookup_live_paths)

lemma read_configuration_cong:
  "files w = files w0 \<Longrightarrow> io_fails w = io_fails w0
     \<Longrightarrow> read_configuration L w = read_configuration L w0"
  by (simp add: read_configuration_def lookup_live_paths cong: option.case_cong)

lemma artifact_names_cases:
  "n \<in> set (artifact_names w k) \<Longrightarrow> n = db_file k \<or> n = lg_file k \<or> n = cp_file k"
  by (auto simp: artifact_names_def split: if_splits)

lemma artifact_names_other:
  assumes "n \<in> set (artifact_names w k)" "k \<noteq> t"
  shows "n \<noteq> db_file t" "n \<noteq> lg_file t" "n \<noteq> cp_file t"
  using artifact_names_cases[OF assms(1)] assms(2) by (auto simp: names_distinct)

lemma filter_checkpoints:
  "filter (glob_match ''*.checkpoint'') (artifact_names w k) = [cp_file k]"
  by (simp add: artifact_names_def checkpoint_file_pattern)

lemma filter_siblings:
  "filter (glob_match (checkpoint_name k0 @ ''_*'')) (artifact_names w k)
     = (if k = k0 then butlast (artifact_names w k) else [])"
  by (auto simp: artifact_names_def sibling_pattern butlast_append)

lemma glob_checkpoints:
  "map fst d = concat (map (artifact_names w0) ks) \<Longrightarrow> glob ''*.checkpoint'' d = map cp_file ks"
  by (simp add: glob_def filter_concat o_def filter_checkpoints)

lemma mtime_of_update:
  "mtime_of (AList.update k v d) n = (if n = k then mtime v else mtime_of d n)"
  by (simp add: mtime_of_def update_conv')

lemma written_world_frame:
  "files (written_world L t w cfg) = files w" "logs_dir (written_world L t w cfg) = logs_dir w"
  "io_fails (written_world L t w cfg) = io_fails w"
  by (simp_all add: written_world_def Let_def)

lemma written_world_inv:
  assumes inv: "store_inv w0 ks w" and new: "t \<notin> set ks"
  shows "store_inv w0 (ks @ [t]) (written_world L t w cfg)"
proof -
  from inv have names: "map fst (backup_dir w) = concat (map (artifact_names w0) ks)"
    and times: "\<forall>k \<in> set ks. mtime_of (backup_dir w) (cp_file k) = k"
    and frame: "files w = files w0" "logs_dir w = logs_dir w0" "io_fails w = io_fails w0"
    by (simp_all add: store_inv_def)
  have fresh: "db_file t \<notin> set (map fst (backup_dir w))"
      "lg_file t \<notin> set (map fst (backup_dir w))" "cp_file t \<notin> set (map fst (backup_dir w))"
    unfolding names using new by (auto dest!: artifact_names_cases simp: names_distinct)
  have an: "artifact_names w t = artifact_names w0 t"
    using frame by (rule artifact_names_cong)
  have old: "k \<in> set ks \<Longrightarrow> cp_file k \<noteq> cp_file t \<and> cp_file k \<noteq> db_file t
               \<and> cp_file k \<noteq> lg_file t" for k
    using new by (auto simp: names_distinct)
  let ?A = "lookup_path w db_path \<noteq> None \<and> \<not> io_fails w Copy_database"
  let ?B = "logs_dir w \<noteq> None \<and> \<not> io_fails w Archive_logs"
  let ?w1 = "snd (backup_database (checkpoint_name t) w)"
  let ?w2 = "snd (backup_logs t (checkpoint_name t) ?w1)"
  have d1: "map fst (backup_dir ?w1) = map fst (backup_dir w) @ (if ?A then [db_file t] else [])"
    using fresh(1) by (simp add: backup_database_dir update_keys db_file_def)
  have B1: "(logs_dir ?w1 \<noteq> None \<and> \<not> io_fails ?w1 Archive_logs) = ?B" by simp
  have "lg_file t \<notin> set (map fst (backup_dir ?w1))"
    unfolding d1 using fresh(2) by (simp add: names_distinct)
  then have d2: "map fst (backup_dir ?w2)
                   = map fst (backup_dir ?w1) @ (if ?B then [lg_file t] else [])"
    by (simp add: backup_logs_dir update_keys lg_file_def)
  have "cp_file t \<notin> set (map fst (backup_dir ?w2))"
    unfolding d2 d1 using fresh(3) by (simp add: names_distinct)
  then have d3: "map fst (backup_dir (written_world L t w cfg))
                   = map fst (backup_dir ?w2) @ [cp_file t]"
    by (simp add: written_world_def Let_def update_keys cp_file_def)
  have n: "map fst (backup_dir (written_world L t w cfg))
             = map fst (backup_dir w) @ artifact_names w t"
    unfolding d3 d2 d1 by (simp add: artifact_names_def)
  have m: "mtime_of (backup_dir (written_world L t w cfg)) (cp_file k) = k"
    if "k \<in> set (ks @ [t])" for k
  proof (cases "k = t")
    case True
    then show ?thesis
      by (simp add: written_world_def Let_def mtime_of_update cp_file_def)
  next
    case False
    with that have k: "k \<in> set ks" by simp
    from old[OF k] times k show ?thesis
      by (simp add: written_world_def Let_def backup_logs_dir backup_database_dir
            mtime_of_update cp_file_def db_file_def lg_file_def)
  qed
  show ?thesis
    unfolding store_inv_def using n m frame
    by (simp add: names an written_world_frame)
qed

lemma map_of_filter_keys:
  "map_of (filter (\<lambda>p. Q (fst p)) d) n = (if Q n then map_of d n else None)"
  by (induction d) auto

lemma mtime_of_filter_keys:
  "Q n \<Longrightarrow> mtime_of (filter (\<lambda>p. Q (fst p)) d) n = mtime_of d n"
  by (simp add: mtime_of_def map_of_filter_keys)

lemma artifact_names_last: "artifact_names w k = butlast (artifact_names w k) @ [cp_file k]"
  by (simp add: artifact_names_def butlast_append)

lemma artifact_names_distinct: "distinct (artifact_names w k)"
  by (simp add: artifact_names_def names_distinct)

lemma filter_out_artifacts:
  assumes "k0 \<notin> set ks"
  shows "filter (\<lambda>n. n \<notin> set (artifact_names w k0)) (concat (map (artifact_names w) ks))
           = concat (map (artifact_names w) ks)"
proof -
  have "n \<notin> set (artifact_names w k0)"
    if "n \<in> set (concat (map (artifact_names w) ks))" for n
  proof -
    from that obtain k where k: "k \<in> set ks" "n \<in> set (artifact_names w k)" by auto
    with assms have "k \<noteq> k0" by auto
    from artifact_names_other[OF k(2) this] show ?thesis
      by (auto dest: artifact_names_cases)
  qed
  then show ?thesis by (simp add: filter_id_conv)
qed

lemma remove_oldest:
  assumes inv: "store_inv w0 (k0 # rest) W" and new: "k0 \<notin> set rest"
      and nofail: "\<forall>n. \<not> io_fails w0 (Unlink n)"
  shows "remove_old [cp_file k0] W =
           (None, W\<lparr>backup_dir :=
                    filter (\<lambda>p. fst p \<notin> set (artifact_names w0 k0)) (backup_dir W)\<rparr>)"
proof -
  let ?d = "backup_dir W"
  let ?pat = "checkpoint_name k0 @ ''_*''"
  let ?sibs = "butlast (artifact_names w0 k0)"
  from inv have names: "map fst ?d = artifact_names w0 k0 @ concat (map (artifact_names w0) rest)"
    and io: "io_fails W = io_fails w0"
    by (simp_all add: store_inv_def)
  let ?W1 = "W\<lparr>backup_dir := AList.delete (cp_file k0) ?d\<rparr>"
  have "cp_file k0 \<in> set (map fst ?d)"
    unfolding names by (simp add: artifact_names_def)
  then have "map_of ?d (cp_file k0) \<noteq> None"
    by (simp add: map_of_eq_None_iff)
  then have u: "unlink (cp_file k0) W = Inr ?W1"
    using nofail io by (simp add: unlink_def)
  have keys1: "map fst (backup_dir ?W1) = filter (\<lambda>n. n \<noteq> cp_file k0) (map fst ?d)"
    by (simp add: AList.delete_eq filter_map o_def case_prod_unfold eq_commute)
  have sib_k0: "filter (glob_match ?pat) (artifact_names w0 k0) = ?sibs"
    by (simp add: filter_siblings)
  have sib_rest: "filter (glob_match ?pat) (concat (map (artifact_names w0) rest)) = []"
    using new by (auto simp: filter_concat filter_siblings)
  have no_cp: "cp_file k0 \<notin> set ?sibs"
    using artifact_names_distinct[of w0 k0] artifact_names_last[of w0 k0]
    by (metis distinct_append disjoint_iff list.set_intros(1))
  have g: "glob ?pat (backup_dir ?W1) = ?sibs"
  proof -
    have "glob ?pat (backup_dir ?W1)
            = filter (\<lambda>n. n \<noteq> cp_file k0) (filter (glob_match ?pat) (map fst ?d))"
      unfolding glob_def keys1 by (simp add: conj_commute)
    also have "filter (glob_match ?pat) (map fst ?d) = ?sibs"
      unfolding names by (simp add: sib_k0 sib_rest)
    also have "filter (\<lambda>n. n \<noteq> cp_file k0) ?sibs = ?sibs"
      using no_cp by (simp add: filter_id_conv) blast
    finally show ?thesis .
  qed
  have sub: "set ?sibs \<subseteq> fst ` set (backup_dir ?W1)"
  proof
    fix n assume n: "n \<in> set ?sibs"
    then have "n \<in> set (artifact_names w0 k0)" by (rule in_set_butlastD)
    then have "n \<in> set (map fst ?d)" unfolding names by simp
    moreover have "n \<noteq> cp_file k0" using n no_cp by auto
    ultimately have "n \<in> set (map fst (backup_dir ?W1))" unfolding keys1 by simp
    then show "n \<in> fst ` set (backup_dir ?W1)" by simp
  qed
  have dist: "distinct ?sibs"
    using artifact_names_distinct[of w0 k0] by (rule distinct_butlast)
  have ua: "unlink_all ?sibs ?W1 =
              (None, ?W1\<lparr>backup_dir := filter (\<lambda>p. fst p \<notin> set ?sibs) (backup_dir ?W1)\<rparr>)"
    using unlink_all_present[OF sub dist] nofail io by simp
  have "filter (\<lambda>p. fst p \<notin> set ?sibs) (AList.delete (cp_file k0) ?d)
          = filter (\<lambda>p. fst p \<notin> set (artifact_names w0 k0)) ?d"
  proof -
    have "set (artifact_names w0 k0) = insert (cp_file k0) (set ?sibs)"
      by (auto simp: artifact_names_def butlast_append)
    then have eq: "set (artifact_names w0 k0) = insert (cp_file k0) S" if "S = set ?sibs" for S
      using that by simp
    have gen: "(c \<noteq> a \<and> a \<notin> S) = (a \<notin> insert c S)" for a c :: string and S
      by blast
    show ?thesis
      unfolding eq[OF refl] AList.delete_eq filter_filter case_prod_unfold gen ..
  qed
  with ua have ua': "unlink_all ?sibs ?W1 =
      (None, W\<lparr>backup_dir := filter (\<lambda>p. fst p \<notin> set (artifact_names w0 k0)) ?d\<rparr>)"
    by simp
  show ?thesis
    using u g ua' by (simp add: stem_cp_file)
qed

lemma keys_filter: "map fst (filter (\<lambda>p. Q (fst p)) d) = filter Q (map fst d)"
  by (induction d) auto

lemma cleanup_inv:
  assumes inv: "store_inv w0 ks W" and sorted: "sorted_wrt (<) ks"
      and len: "length ks \<le> Suc max_backups"
      and nofail: "\<not> io_fails w0 Glob_backups" "\<forall>n. \<not> io_fails w0 (Unlink n)"
  shows "store_inv w0 (drop (length ks - max_backups) ks) (cleanup_old_backups W)"
proof -
  let ?d = "backup_dir W"
  from inv have names: "map fst ?d = concat (map (artifact_names w0) ks)"
    and times: "\<forall>k \<in> set ks. mtime_of ?d (cp_file k) = k"
    and frame: "files W = files w0" "logs_dir W = logs_dir w0" "io_fails W = io_fails w0"
    by (simp_all add: store_inv_def)
  have listing: "newest_first ?d (glob ''*.checkpoint'' ?d) = map cp_file (rev ks)"
    using glob_checkpoints[OF names] newest_first_increasing[OF sorted times] by simp
  show ?thesis
  proof (cases "length ks \<le> max_backups")
    case True
    then have "cleanup_old_backups W = W"
      using nofail(1) frame(3) by (simp add: cleanup_old_backups_def listing)
    with True inv show ?thesis by simp
  next
    case False
    with len have l: "length ks = Suc max_backups" by simp
    then obtain k0 rest where ks: "ks = k0 # rest" and lr: "length rest = max_backups"
      by (cases ks) auto
    from sorted ks have new: "k0 \<notin> set rest" by auto
    have "drop max_backups (map cp_file (rev ks)) = [cp_file k0]"
      using lr by (simp add: ks)
    moreover note remove_oldest[OF inv[unfolded ks] new nofail(2)]
    ultimately have c: "cleanup_old_backups W =
        W\<lparr>backup_dir := filter (\<lambda>p. fst p \<notin> set (artifact_names w0 k0)) ?d\<rparr>"
      using nofail(1) frame(3) by (simp add: cleanup_old_backups_def listing)
    have n: "map fst (filter (\<lambda>p. fst p \<notin> set (artifact_names w0 k0)) ?d)
               = concat (map (artifact_names w0) rest)"
    proof -
      have "map fst (filter (\<lambda>p. fst p \<notin> set (artifact_names w0 k0)) ?d)
              = filter (\<lambda>n. n \<notin> set (artifact_names w0 k0)) (map fst ?d)"
        by (rule keys_filter)
      also have "\<dots> = filter (\<lambda>n. n \<notin> set (artifact_names w0 k0))
                         (concat (map (artifact_names w0) rest))"
        unfolding names ks by simp
      also have "\<dots> = concat (map (artifact_names w0) rest)"
        by (rule filter_out_artifacts[OF new])
      finally show ?thesis .
    qed
    have m: "mtime_of (filter (\<lambda>p. fst p \<notin> set (artifact_names w0 k0)) ?d) (cp_file k) = k"
      if k: "k \<in> set rest" for k
    proof -
      from k new have "k \<noteq> k0" by auto
      then have "cp_file k \<notin> set (artifact_names w0 k0)"
        by (auto dest: artifact_names_cases simp: names_distinct)
      then show ?thesis using times k
        by (simp add: mtime_of_filter_keys[where Q="\<lambda>n. n \<notin> set (artifact_names w0 k0)"] ks)
    qed
    have "drop (length ks - max_backups) ks = rest" using lr by (simp add: ks)
    then show ?thesis
      unfolding store_inv_def c using n m frame by simp
  qed
qed

lemma log_msg_inv: "store_inv w0 ks w \<Longrightarrow> store_inv w0 ks (log_msg l s w)"
  by (simp add: store_inv_def)

lemma create_inv:
  assumes inv: "store_inv w0 ks w" and sorted: "sorted_wrt (<) (ks @ [t])"
      and len: "length ks \<le> max_backups"
      and ok: "\<not> io_fails w0 Gather_system_state" "\<not> io_fails w0 Open_checkpoint"
              "\<not> io_fails w0 Dump_checkpoint" "\<not> io_fails w0 Glob_backups"
              "\<forall>n. \<not> io_fails w0 (Unlink n)"
      and cfg: "read_configuration L w0 = Inr cfg"
  shows "store_inv w0 (drop (length (ks @ [t]) - max_backups) (ks @ [t]))
           (snd (create_system_checkpoint L t w))"
proof -
  from inv have frame: "files w = files w0" "io_fails w = io_fails w0"
    by (simp_all add: store_inv_def)
  have cfg': "read_configuration L w = Inr cfg"
    using read_configuration_cong[OF frame] cfg by simp
  have form: "create_system_checkpoint L t w =
           (Inr (built_checkpoint L t w cfg),
            log_msg ''info'' (''System checkpoint created: '' @ checkpoint_name t)
              (cleanup_old_backups (written_world L t w cfg)))"
    using ok(1-3) frame(2) by (intro create_success_form cfg') simp_all
  from sorted have new: "t \<notin> set ks" by (auto simp: sorted_wrt_append)
  note w = written_world_inv[OF inv new, of L cfg]
  have "length (ks @ [t]) \<le> Suc max_backups" using len by simp
  from cleanup_inv[OF w sorted this ok(4,5)]
  show ?thesis by (simp add: form log_msg_inv)
qed

lemma create_all_inv:
  assumes ok: "\<not> io_fails w0 Gather_system_state" "\<not> io_fails w0 Open_checkpoint"
              "\<not> io_fails w0 Dump_checkpoint" "\<not> io_fails w0 Glob_backups"
              "\<forall>n. \<not> io_fails w0 (Unlink n)"
      and cfg: "read_configuration L w0 = Inr cfg"
  shows "store_inv w0 ks w \<Longrightarrow> sorted_wrt (<) (ks @ ts) \<Longrightarrow> length ks \<le> max_backups
          \<Longrightarrow> store_inv w0 (drop (length (ks @ ts) - max_backups) (ks @ ts)) (create_all L ts w)"
proof (induction ts arbitrary: ks w)
  case Nil
  then show ?case by simp
next
  case (Cons t ts)
  let ?ks1 = "drop (length (ks @ [t]) - max_backups) (ks @ [t])"
  have s1: "sorted_wrt (<) (ks @ [t])"
    using Cons.prems(2) by (auto simp: sorted_wrt_append)
  note step = create_inv[OF Cons.prems(1) s1 Cons.prems(3) ok cfg]
  have s2: "sorted_wrt (<) (?ks1 @ ts)"
  proof -
    have "sorted_wrt (<) ((ks @ [t]) @ ts)" using Cons.prems(2) by simp
    then have "sorted_wrt (<) (drop (length (ks @ [t]) - max_backups) ((ks @ [t]) @ ts))"
      by (rule sorted_wrt_drop)
    then show ?thesis by (simp add: drop_append max_backups_def)
  qed
  have l1: "length ?ks1 \<le> max_backups" by simp
  from Cons.IH[OF step s2 l1]
  have "store_inv w0 (drop (length (?ks1 @ ts) - max_backups) (?ks1 @ ts))
          (create_all L (t # ts) w)" by simp
  moreover have "drop (length (?ks1 @ ts) - max_backups) (?ks1 @ ts)
                   = drop (length ((ks @ [t]) @ ts) - max_backups) ((ks @ [t]) @ ts)"
    by (rule drop_keep_last)
  ultimately show ?case by simp
qed

text \<open>
  Claim C5, as the code has it. Every successful creation ends by removing old
  checkpoints (\<open>create_success_form\<close>), keeping \<^verbatim>\<open>max_backups\<close> = 10. Starting from
  an empty backup directory, after checkpoints are created at the clock seconds \<open>ts\<close>,
  which are distinct and increasing, where gathering the state, reading the
  configuration, writing the record, listing and removing files do not fail: the backup
  directory holds exactly the artifacts of the 10 newest checkpoints (all of them when
  there are fewer), the checkpoint records listed are those of the 10 newest, and of
  every older checkpoint neither the record nor the database copy nor the log archive
  is left. After 12 such creations the records are those of the last 10.
\<close>

theorem retention_keeps_ten_newest:
  assumes "backup_dir w = []"
      and "\<not> io_fails w Gather_system_state" "\<not> io_fails w Open_checkpoint"
          "\<not> io_fails w Dump_checkpoint" "\<not> io_fails w Glob_backups"
          "\<forall>n. \<not> io_fails w (Unlink n)"
      and "read_configuration L w = Inr cfg"
      and "sorted_wrt (<) ts"
  shows "map fst (backup_dir (create_all L ts w))
           = concat (map (artifact_names w) (drop (length ts - max_backups) ts))
       \<and> glob ''*.checkpoint'' (backup_dir (create_all L ts w))
           = map cp_file (drop (length ts - max_backups) ts)
       \<and> (\<forall>t \<in> set (take (length ts - max_backups) ts).
             cp_file t \<notin> fst ` set (backup_dir (create_all L ts w))
           \<and> db_file t \<notin> fst ` set (backup_dir (create_all L ts w))
           \<and> lg_file t \<notin> fst ` set (backup_dir (create_all L ts w)))
       \<and> (length ts = 12 \<longrightarrow>
             glob ''*.checkpoint'' (backup_dir (create_all L ts w)) = map cp_file (drop 2 ts))"
proof -
  let ?kept = "drop (length ts - max_backups) ts"
  let ?d = "backup_dir (create_all L ts w)"
  have start: "store_inv w [] w" using assms(1) by (simp add: store_inv_def)
  have "store_inv w (drop (length ([] @ ts) - max_backups) ([] @ ts)) (create_all L ts w)"
    using assms(8) by (intro create_all_inv[OF assms(2-7) start]) simp_all
  then have names: "map fst ?d = concat (map (artifact_names w) ?kept)"
    by (simp add: store_inv_def)
  have listing: "glob ''*.checkpoint'' ?d = map cp_file ?kept"
    by (rule glob_checkpoints[OF names])
  have gone: "cp_file t \<notin> fst ` set ?d \<and> db_file t \<notin> fst ` set ?d \<and> lg_file t \<notin> fst ` set ?d"
    if t: "t \<in> set (take (length ts - max_backups) ts)" for t
  proof -
    have "distinct ts" using assms(8) by (simp add: strict_sorted_iff)
    then have "distinct (take (length ts - max_backups) ts @ ?kept)" by simp
    with t have "t \<notin> set ?kept" by (auto simp only: distinct_append)
    then have "n \<noteq> cp_file t \<and> n \<noteq> db_file t \<and> n \<noteq> lg_file t"
      if "n \<in> set (map fst ?d)" for n
      using that unfolding names by (auto dest!: artifact_names_cases simp: names_distinct)
    then show ?thesis by (metis set_map)
  qed
  have twelve: "glob ''*.checkpoint'' ?d = map cp_file (drop 2 ts)" if "length ts = 12"
    using listing that by (simp add: max_backups_def)
  show ?thesis using names listing gone twelve by blast
qed

theorem retention_keeps_ten_newest_witness:
  "backup_dir example_world = []
   \<and> read_configuration example_lib example_world = Inr (JObj [(''a'', JInt 1)])
   \<and> sorted_wrt (<) [1, 2, 3, 4, 5, 6, 7, 8, 9, 10, 11, 12 :: nat]
   \<and> glob ''*.checkpoint''
        (backup_dir (create_all example_lib [1, 2, 3, 4, 5, 6, 7, 8, 9, 10, 11, 12] example_world))
      = [''checkpoint_3.checkpoint'', ''checkpoint_4.checkpoint'', ''checkpoint_5.checkpoint'',
         ''checkpoint_6.checkpoint'', ''checkpoint_7.checkpoint'', ''checkpoint_8.checkpoint'',
         ''checkpoint_9.checkpoint'', ''checkpoint_10.checkpoint'', ''checkpoint_11.checkpoint'',
         ''checkpoint_12.checkpoint'']
   \<and> ''checkpoint_2_database.db''
        \<notin> fst ` set (backup_dir
            (create_all example_lib [1, 2, 3, 4, 5, 6, 7, 8, 9, 10, 11, 12] example_world))"
proof -
  let ?ts = "[1, 2, 3, 4, 5, 6, 7, 8, 9, 10, 11, 12 :: nat]"
  let ?d = "backup_dir (create_all example_lib ?ts example_world)"
  have h1: "backup_dir example_world = []" by (simp add: example_world_def)
  have h2: "\<not> io_fails example_world Gather_system_state"
    "\<not> io_fails example_world Open_checkpoint" "\<not> io_fails example_world Dump_checkpoint"
    "\<not> io_fails example_world Glob_backups" "\<forall>n. \<not> io_fails example_world (Unlink n)"
    by (simp_all add: example_world_def no_failure_def)
  have h3: "read_configuration example_lib example_world = Inr (JObj [(''a'', JInt 1)])"
    by (simp add: eval_defs)
  have h4: "sorted_wrt (<) ?ts" by simp
  note t = retention_keeps_ten_newest[OF h1 h2 h3 h4]
  have names: "cp_file 3 = ''checkpoint_3.checkpoint''" "cp_file 4 = ''checkpoint_4.checkpoint''"
    "cp_file 5 = ''checkpoint_5.checkpoint''" "cp_file 6 = ''checkpoint_6.checkpoint''"
    "cp_file 7 = ''checkpoint_7.checkpoint''" "cp_file 8 = ''checkpoint_8.checkpoint''"
    "cp_file 9 = ''checkpoint_9.checkpoint''" "cp_file 10 = ''checkpoint_10.checkpoint''"
    "cp_file 11 = ''checkpoint_11.checkpoint''" "cp_file 12 = ''checkpoint_12.checkpoint''"
    "db_file 2 = ''checkpoint_2_database.db''"
    by (simp_all add: cp_file_def db_file_def checkpoint_name_def string_of_nat.simps digit_char_def)
  from t have "glob ''*.checkpoint'' ?d = map cp_file (drop (length ?ts - max_backups) ?ts)"
    by blast
  then have a: "glob ''*.checkpoint'' ?d
      = [''checkpoint_3.checkpoint'', ''checkpoint_4.checkpoint'', ''checkpoint_5.checkpoint'',
         ''checkpoint_6.checkpoint'', ''checkpoint_7.checkpoint'', ''checkpoint_8.checkpoint'',
         ''checkpoint_9.checkpoint'', ''checkpoint_10.checkpoint'', ''checkpoint_11.checkpoint'',
         ''checkpoint_12.checkpoint'']"
    by (simp add: max_backups_def names)
  from t have "\<forall>t \<in> set (take (length ?ts - max_backups) ?ts). db_file t \<notin> fst ` set ?d"
    by blast
  then have "db_file 2 \<notin> fst ` set ?d" by (simp add: max_backups_def)
  then have b: "''checkpoint_2_database.db'' \<notin> fst ` set ?d" unfolding names .
  from h1 h3 h4 a b show ?thesis by blast
qed

text \<open>A second creation within the same clock second writes the same names again.\<close>

lemma rewritten_world_inv:
  assumes inv: "store_inv w0 [t] w"
  shows "store_inv w0 [t] (written_world L t w cfg)"
proof -
  from inv have names: "map fst (backup_dir w) = artifact_names w0 t"
    and frame: "files w = files w0" "logs_dir w = logs_dir w0" "io_fails w = io_fails w0"
    by (simp_all add: store_inv_def)
  have an: "artifact_names w t = artifact_names w0 t"
    using frame by (rule artifact_names_cong)
  let ?w1 = "snd (backup_database (checkpoint_name t) w)"
  let ?w2 = "snd (backup_logs t (checkpoint_name t) ?w1)"
  have names': "map fst (backup_dir w) = artifact_names w t" using names an by simp
  have fold: "checkpoint_name t @ ''_database.db'' = db_file t"
    "checkpoint_name t @ ''_logs.tar.gz'' = lg_file t"
    "checkpoint_name t @ ''.checkpoint'' = cp_file t"
    by (simp_all add: db_file_def lg_file_def cp_file_def)
  have d1: "map fst (backup_dir ?w1) = map fst (backup_dir w)"
    by (simp add: backup_database_dir update_keys fold names' artifact_names_def)
  have d2: "map fst (backup_dir ?w2) = map fst (backup_dir ?w1)"
    by (simp add: backup_logs_dir update_keys fold d1 names' artifact_names_def)
  have d3: "map fst (backup_dir (written_world L t w cfg)) = map fst (backup_dir ?w2)"
    by (simp add: written_world_def Let_def update_keys fold d2 d1 names' artifact_names_def)
  have m: "mtime_of (backup_dir (written_world L t w cfg)) (cp_file t) = t"
    by (simp add: written_world_def Let_def mtime_of_update cp_file_def)
  show ?thesis
    unfolding store_inv_def using m frame
    by (simp add: d3 d2 d1 names written_world_frame)
qed

lemma recreate_inv:
  assumes inv: "store_inv w0 [t] w"
      and ok: "\<not> io_fails w0 Gather_system_state" "\<not> io_fails w0 Open_checkpoint"
              "\<not> io_fails w0 Dump_checkpoint" "\<not> io_fails w0 Glob_backups"
              "\<forall>n. \<not> io_fails w0 (Unlink n)"
      and cfg: "read_configuration L w0 = Inr cfg"
  shows "store_inv w0 [t] (snd (create_system_checkpoint L t w))"
proof -
  from inv have frame: "files w = files w0" "io_fails w = io_fails w0"
    by (simp_all add: store_inv_def)
  have cfg': "read_configuration L w = Inr cfg"
    using read_configuration_cong[OF frame] cfg by simp
  have form: "create_system_checkpoint L t w =
           (Inr (built_checkpoint L t w cfg),
            log_msg ''info'' (''System checkpoint created: '' @ checkpoint_name t)
              (cleanup_old_backups (written_world L t w cfg)))"
    using ok(1-3) frame(2) by (intro create_success_form cfg') simp_all
  have "store_inv w0 (drop (length [t] - max_backups) [t])
          (cleanup_old_backups (written_world L t w cfg))"
    by (rule cleanup_inv[OF rewritten_world_inv[OF inv] _ _ ok(4,5)])
       (simp_all add: max_backups_def)
  then show ?thesis by (simp add: form log_msg_inv max_backups_def)
qed

lemma recreate_all_inv:
  assumes ok: "\<not> io_fails w0 Gather_system_state" "\<not> io_fails w0 Open_checkpoint"
              "\<not> io_fails w0 Dump_checkpoint" "\<not> io_fails w0 Glob_backups"
              "\<forall>n. \<not> io_fails w0 (Unlink n)"
      and cfg: "read_configuration L w0 = Inr cfg"
  shows "store_inv w0 [t] w \<Longrightarrow> store_inv w0 [t] (create_all L (replicate n t) w)"
proof (induction n arbitrary: w)
  case 0
  then show ?case by simp
next
  case (Suc n)
  from Suc.IH[OF recreate_inv[OF Suc.prems ok cfg]] show ?case by simp
qed

text \<open>
  Claim C5 as stated fails: the name of a checkpoint is made of the clock in whole
  seconds, so creations within one second write the same record again. After twelve
  creations in the second 100 the backup directory holds one record, not ten.
\<close>

theorem retention_same_second_counterexample:
  "glob ''*.checkpoint''
     (backup_dir (create_all example_lib
        [100, 100, 100, 100, 100, 100, 100, 100, 100, 100, 100, 100] example_world))
   = [''checkpoint_100.checkpoint'']"
proof -
  let ?w = example_world
  have ok: "\<not> io_fails ?w Gather_system_state"
    "\<not> io_fails ?w Open_checkpoint" "\<not> io_fails ?w Dump_checkpoint"
    "\<not> io_fails ?w Glob_backups" "\<forall>n. \<not> io_fails ?w (Unlink n)"
    by (simp_all add: example_world_def no_failure_def)
  have cfg: "read_configuration example_lib ?w = Inr (JObj [(''a'', JInt 1)])"
    by (simp add: eval_defs)
  have start: "store_inv ?w [] ?w" by (simp add: store_inv_def example_world_def)
  have "store_inv ?w (drop (length ([] @ [100 :: nat]) - max_backups) ([] @ [100]))
          (snd (create_system_checkpoint example_lib 100 ?w))"
    by (rule create_inv[OF start _ _ ok cfg]) simp_all
  then have first: "store_inv ?w [100] (snd (create_system_checkpoint example_lib 100 ?w))"
    by (simp add: max_backups_def)
  have twelve: "[100, 100, 100, 100, 100, 100, 100, 100, 100, 100, 100, 100]
                  = 100 # replicate 11 (100 :: nat)"
    by (simp add: numeral_eq_Suc)
  have "store_inv ?w [100] (create_all example_lib (100 # replicate 11 100) ?w)"
    using recreate_all_inv[OF ok cfg first, of 11] by simp
  then have "map fst (backup_dir (create_all example_lib (100 # replicate 11 100) ?w))
               = concat (map (artifact_names ?w) [100])"
    by (simp add: store_inv_def)
  from glob_checkpoints[OF this] show ?thesis
    unfolding twelve
    by (simp add: cp_file_def checkpoint_name_def string_of_nat.simps digit_char_def)
qed

end
